theory Spec2Isabelle
  imports Complex_Main
begin

section \<open>Embedding of the portfolio generator\<close>

text \<open>
  The development follows \<^verbatim>\<open>src/lib/PortfolioGenerator.js\<close>. JavaScript numbers are
  modelled as \<^typ>\<open>real\<close>: arithmetic is exact, there is no rounding, no NaN and no
  infinity (a division by zero gives 0 in HOL, so the geometric theorems assume positive
  image dimensions). A value that may be \<^verbatim>\<open>undefined\<close> is an \<^typ>\<open>'a option\<close>.
  The PDF writer, the image library and the file system are not part of the program: the
  commands sent to the writer are values of the type \<open>cmd\<close>, and what the outside world
  answers (file probes, text heights, whether an image can be embedded) is a parameter of
  type \<open>env\<close>. Console output is not modelled.
\<close>

subsection \<open>JavaScript helpers\<close>

text \<open>\<^verbatim>\<open>a || d\<close> for a number that may be missing: 0 and \<^verbatim>\<open>undefined\<close> are falsy.\<close>

definition js_or_num :: "real option \<Rightarrow> real \<Rightarrow> real" where
  "js_or_num a d = (case a of None \<Rightarrow> d | Some v \<Rightarrow> if v = 0 then d else v)"

text \<open>Truthiness of a string that may be missing: the empty string is falsy.\<close>

definition truthy :: "string option \<Rightarrow> bool" where
  "truthy a = (case a of None \<Rightarrow> False | Some s \<Rightarrow> s \<noteq> [])"

text \<open>\<^verbatim>\<open>a || b\<close> for two strings that may be missing.\<close>

definition js_or_opt :: "string option \<Rightarrow> string option \<Rightarrow> string option" where
  "js_or_opt a b = (if truthy a then a else b)"

text \<open>\<^verbatim>\<open>a || d\<close> for a string that may be missing and a default.\<close>

definition js_or_str :: "string option \<Rightarrow> string \<Rightarrow> string" where
  "js_or_str a d = (case a of None \<Rightarrow> d | Some s \<Rightarrow> if s = [] then d else s)"

text \<open>\<^verbatim>\<open>a || false\<close> for a boolean that may be missing.\<close>

definition js_or_false :: "bool option \<Rightarrow> bool" where
  "js_or_false a = (case a of None \<Rightarrow> False | Some b \<Rightarrow> b)"

text \<open>\<^verbatim>\<open>Math.round\<close>: the nearest integer, halves rounded up.\<close>

definition js_round :: "real \<Rightarrow> real" where
  "js_round v = of_int \<lfloor>v + 1 / 2\<rfloor>"

text \<open>The text of an optional string inside a call or a template.\<close>

definition str_of :: "string option \<Rightarrow> string" where
  "str_of a = (case a of None \<Rightarrow> [] | Some s \<Rightarrow> s)"

text \<open>\<^verbatim>\<open>s.endsWith(suf)\<close>.\<close>

definition endsWith :: "string \<Rightarrow> string \<Rightarrow> bool" where
  "endsWith s suf =
     (length suf \<le> length s \<and> drop (length s - length suf) s = suf)"

text \<open>
  The canonical form of a character under the \<^verbatim>\<open>i\<close> flag of a regular expression:
  its upper case. Only the ASCII letters change.
\<close>

definition canonicalize :: "char \<Rightarrow> char" where
  "canonicalize c =
     (case map_of (zip ''abcdefghijklmnopqrstuvwxyz'' ''ABCDEFGHIJKLMNOPQRSTUVWXYZ'') c of
        None \<Rightarrow> c
      | Some u \<Rightarrow> u)"

text \<open>A literal pattern matched at the end of the input, ignoring case.\<close>

definition endsWith_ci :: "string \<Rightarrow> string \<Rightarrow> bool" where
  "endsWith_ci s suf =
     (length suf \<le> length s \<and>
      map canonicalize (drop (length s - length suf) s) = map canonicalize suf)"

text \<open>\<^verbatim>\<open>item.match(/\.(jpg|jpeg|png)$/i)\<close>, as a truth value.\<close>

definition matchesImage :: "string \<Rightarrow> bool" where
  "matchesImage item =
     (endsWith_ci item ''.jpg'' \<or> endsWith_ci item ''.jpeg'' \<or> endsWith_ci item ''.png'')"

text \<open>
  \<^verbatim>\<open>Math.ceil(Math.sqrt(n))\<close> for a list length \<open>n\<close>: the least \<open>c\<close> with
  \<open>n \<le> c * c\<close>, found by search (lemma \<open>ceil_sqrt_eq\<close> below relates it to the
  real square root).
\<close>

definition ceil_sqrt :: "nat \<Rightarrow> nat" where
  "ceil_sqrt n = (case find (\<lambda>c. n \<le> c * c) [0..<Suc n] of Some c \<Rightarrow> c | None \<Rightarrow> 0)"

subsection \<open>Data model\<close>

record fonts =
  f_title :: string
  f_heading :: string
  f_body :: string
  f_caption :: string

record imageBorder =
  ib_enabled :: "bool option"
  ib_width :: "real option"
  ib_color :: "string option"

record config =
  cfg_title :: "string option"
  cfg_subtitle :: "string option"
  cfg_author :: "string option"
  cfg_email :: "string option"
  cfg_website :: "string option"
  cfg_output :: "string option"
  cfg_pageSize :: "string option"
  cfg_orientation :: "string option"
  cfg_margin :: "real option"
  cfg_dpi :: "real option"
  cfg_fonts :: "fonts option"
  cfg_imageBorder :: "imageBorder option"

text \<open>An entry of \<^verbatim>\<open>project.images\<close>: a bare string or an object.\<close>

datatype imageItem =
  Str string
  | Obj (item_name: "string option") (item_file: "string option") (item_border: "bool option")

text \<open>What \<^verbatim>\<open>sharp(path).metadata()\<close> answers.\<close>

record metadata =
  md_width :: real
  md_height :: real
  md_format :: string

text \<open>A processed image, as pushed by \<^verbatim>\<open>processProjectImages\<close>.\<close>

record image =
  img_name :: string
  img_path :: string
  img_width :: real
  img_height :: real
  img_format :: string
  img_border :: bool

record layoutPage =
  pg_type :: string
  pg_content :: "string list"

record layout =
  lo_pages :: "layoutPage list option"

record project =
  p_path :: string
  p_directory :: string
  p_title :: string
  p_medium :: string
  p_year :: string
  p_description :: string
  p_duration :: "string option"
  p_collective :: "string option"
  p_curator :: "string option"
  p_publisher :: "string option"
  p_link :: "string option"
  p_images :: "imageItem list option"
  p_layout :: "layout option"
  p_processedImages :: "image list"

text \<open>\<^verbatim>\<open>doc.page\<close>: the writer's page size in points.\<close>

record page =
  page_width :: real
  page_height :: real

record rect =
  rx :: real
  ry :: real
  rw :: real
  rh :: real

text \<open>What is handed to \<^verbatim>\<open>doc.image\<close>: the file, or the buffer resized by sharp.\<close>

datatype imageSource =
  File string
  | Resized string real real nat

text \<open>The calls made on the document writer.\<close>

datatype cmd =
  FontSize real
  | Font string
  | Text string real real "real option" "string option"
  | Image imageSource real real real real
  | Save
  | LineWidth real
  | StrokeColor string
  | Rect real real real real
  | Stroke
  | Restore
  | AddPage

text \<open>
  The outside world. \<open>probe\<close> is \<^verbatim>\<open>fs.access\<close> followed by the metadata query on a
  path (\<open>None\<close> when either throws); \<open>path_join\<close> is \<^verbatim>\<open>path.join\<close>;
  \<open>text_height font size text width\<close> is the height the writer gives a text, which is
  both what \<^verbatim>\<open>heightOfString\<close> returns and how far \<^verbatim>\<open>doc.y\<close> moves below the \<open>y\<close>
  of a \<^verbatim>\<open>doc.text\<close> call; \<open>resize_ok path w h quality\<close> says that the resize and the
  embedding of its buffer succeed, \<open>embed_ok path\<close> that the embedding of the file does;
  \<open>page_of size layout\<close> is the page the writer makes for a size and an orientation.
\<close>

record env =
  probe :: "string \<Rightarrow> metadata option"
  path_join :: "string \<Rightarrow> string \<Rightarrow> string"
  text_height :: "string \<Rightarrow> real \<Rightarrow> string \<Rightarrow> real option \<Rightarrow> real"
  resize_ok :: "string \<Rightarrow> real \<Rightarrow> real \<Rightarrow> nat \<Rightarrow> bool"
  embed_ok :: "string \<Rightarrow> bool"
  page_of :: "string \<Rightarrow> string \<Rightarrow> page"

datatype error = TypeError

subsection \<open>Loading\<close>

text \<open>
  \<^verbatim>\<open>loadConfig\<close>: the parsed file, or the fallback object when reading or parsing
  fails (\<open>None\<close>).
\<close>

definition loadConfig :: "config option \<Rightarrow> config" where
  "loadConfig parsed =
     (case parsed of
        Some c \<Rightarrow> c
      | None \<Rightarrow>
          \<lparr> cfg_title = Some ''Portfolio'', cfg_subtitle = Some ''Creative Work'',
            cfg_author = Some ''Artist'', cfg_email = Some [], cfg_website = Some [],
            cfg_output = Some ''portfolio.pdf'', cfg_pageSize = Some ''A4'',
            cfg_orientation = None, cfg_margin = Some 50, cfg_dpi = None,
            cfg_fonts = None, cfg_imageBorder = None \<rparr>)"

text \<open>
  One turn of the loop of \<^verbatim>\<open>processProjectImages\<close>. An object with neither a name
  nor a file gives \<^verbatim>\<open>undefined\<close> to \<^verbatim>\<open>path.join\<close>, which throws outside the
  \<^verbatim>\<open>try\<close>; a failing probe drops the entry.
\<close>

definition processImageItem :: "env \<Rightarrow> string \<Rightarrow> imageItem \<Rightarrow> error + image list" where
  "processImageItem e ppath imageItem =
     (let (imageName, imageConfig) =
            (case imageItem of
               Str s \<Rightarrow> (Some s, None)
             | Obj n f b \<Rightarrow> (js_or_opt n f, b))
      in case imageName of
           None \<Rightarrow> Inl TypeError
         | Some name \<Rightarrow>
             (let imagePath = path_join e ppath name
              in case probe e imagePath of
                   None \<Rightarrow> Inr []
                 | Some md \<Rightarrow>
                     Inr [\<lparr> img_name = name, img_path = imagePath,
                            img_width = md_width md, img_height = md_height md,
                            img_format = md_format md,
                            img_border = js_or_false imageConfig \<rparr>]))"

fun processItems :: "env \<Rightarrow> string \<Rightarrow> imageItem list \<Rightarrow> image list \<Rightarrow> error + image list" where
  "processItems e ppath [] processedImages = Inr processedImages"
| "processItems e ppath (imageItem # rest) processedImages =
     (case processImageItem e ppath imageItem of
        Inl err \<Rightarrow> Inl err
      | Inr new \<Rightarrow> processItems e ppath rest (processedImages @ new))"

definition processProjectImages :: "env \<Rightarrow> project \<Rightarrow> error + project" where
  "processProjectImages e proj =
     (case processItems e (p_path proj) (case p_images proj of None \<Rightarrow> [] | Some is \<Rightarrow> is) [] of
        Inl err \<Rightarrow> Inl err
      | Inr processedImages \<Rightarrow> Inr (proj\<lparr> p_processedImages := processedImages \<rparr>))"

text \<open>
  \<^verbatim>\<open>loadProjects\<close>, given the parsed descriptors of the directories in order
  (\<open>None\<close> when reading or parsing one fails): a project whose processing throws is
  skipped.
\<close>

fun loadProjects :: "env \<Rightarrow> project option list \<Rightarrow> project list" where
  "loadProjects e [] = []"
| "loadProjects e (None # rest) = loadProjects e rest"
| "loadProjects e (Some proj # rest) =
     (case processProjectImages e proj of
        Inl err \<Rightarrow> loadProjects e rest
      | Inr p \<Rightarrow> p # loadProjects e rest)"

subsection \<open>Placing an image\<close>

definition margin_of :: "config \<Rightarrow> real" where
  "margin_of cfg = js_or_num (cfg_margin cfg) 30"

definition dpi_of :: "config \<Rightarrow> real" where
  "dpi_of cfg = js_or_num (cfg_dpi cfg) 300"

text \<open>Lines 585 to 596 of \<^verbatim>\<open>addImageToPage\<close>: the rectangle the image is drawn in.\<close>

definition placement :: "image \<Rightarrow> real \<Rightarrow> real \<Rightarrow> real \<Rightarrow> real \<Rightarrow> rect" where
  "placement img x y maxWidth maxHeight =
     (let aspectRatio = img_width img / img_height img;
          width0 = maxWidth;
          height0 = maxWidth / aspectRatio;
          height = (if height0 > maxHeight then maxHeight else height0);
          width = (if height0 > maxHeight then maxHeight * aspectRatio else width0);
          centerX = x + (maxWidth - width) / 2;
          centerY = y + (maxHeight - height) / 2
      in \<lparr> rx = centerX, ry = centerY, rw = width, rh = height \<rparr>)"

text \<open>\<^verbatim>\<open>image.border || (borderConfig && borderConfig.enabled)\<close>.\<close>

definition shouldDrawBorder :: "config \<Rightarrow> image \<Rightarrow> bool" where
  "shouldDrawBorder cfg img =
     (img_border img \<or>
      (case cfg_imageBorder cfg of None \<Rightarrow> False | Some bc \<Rightarrow> js_or_false (ib_enabled bc)))"

definition borderCmds :: "config \<Rightarrow> rect \<Rightarrow> cmd list" where
  "borderCmds cfg r =
     (let borderWidth = js_or_num (case cfg_imageBorder cfg of None \<Rightarrow> None | Some bc \<Rightarrow> ib_width bc) (1 / 2);
          borderColor = js_or_str (case cfg_imageBorder cfg of None \<Rightarrow> None | Some bc \<Rightarrow> ib_color bc) ''#CCCCCC''
      in [Save, LineWidth borderWidth, StrokeColor borderColor,
          Rect (rx r) (ry r) (rw r) (rh r), Stroke, Restore])"

text \<open>
  Which source reaches \<^verbatim>\<open>doc.image\<close>, if any: the resized buffer, the file when the
  resize branch fails or is not taken, nothing when the file cannot be embedded either
  (the outer \<^verbatim>\<open>catch\<close>).
\<close>

definition imageSourceFor :: "env \<Rightarrow> config \<Rightarrow> image \<Rightarrow> rect \<Rightarrow> imageSource option" where
  "imageSourceFor e cfg img r =
     (let dpi = dpi_of cfg;
          targetWidth = js_round (rw r * dpi / 72);
          targetHeight = js_round (rh r * dpi / 72);
          quality = (if dpi \<ge> 300 then 95 else 85)
      in if (dpi < 300 \<or> img_width img > targetWidth * 2) \<and>
            resize_ok e (img_path img) targetWidth targetHeight quality
         then Some (Resized (img_path img) targetWidth targetHeight quality)
         else if embed_ok e (img_path img) then Some (File (img_path img))
         else None)"

definition addImageToPage ::
  "env \<Rightarrow> config \<Rightarrow> image \<Rightarrow> real \<Rightarrow> real \<Rightarrow> real \<Rightarrow> real \<Rightarrow> cmd list" where
  "addImageToPage e cfg img x y maxWidth maxHeight =
     (let r = placement img x y maxWidth maxHeight
      in case imageSourceFor e cfg img r of
           None \<Rightarrow> []
         | Some src \<Rightarrow>
             Image src (rx r) (ry r) (rw r) (rh r) #
             (if shouldDrawBorder cfg img then borderCmds cfg r else []))"

subsection \<open>Gallery and full pages\<close>

text \<open>The cell of image \<open>i\<close> in the grid of \<open>n\<close> images (the body of the loop).\<close>

definition gridCols :: "nat \<Rightarrow> real" where
  "gridCols n = real (ceil_sqrt n)"

definition gridRows :: "nat \<Rightarrow> real" where
  "gridRows n = of_int \<lceil>real n / gridCols n\<rceil>"

definition gridCell :: "real \<Rightarrow> real \<Rightarrow> real \<Rightarrow> nat \<Rightarrow> nat \<Rightarrow> rect" where
  "gridCell margin availableWidth availableHeight n i =
     (let cols = gridCols n;
          rows = gridRows n;
          imageWidth = (availableWidth - 20 * (cols - 1)) / cols;
          imageHeight = (availableHeight - 20 * (rows - 1)) / rows;
          col = real (i mod ceil_sqrt n);
          row = real (i div ceil_sqrt n);
          x = margin + col * (imageWidth + 20);
          y = margin + row * (imageHeight + 20)
      in \<lparr> rx = x, ry = y, rw = imageWidth, rh = imageHeight \<rparr>)"

definition createGalleryPage :: "env \<Rightarrow> config \<Rightarrow> page \<Rightarrow> image list \<Rightarrow> cmd list" where
  "createGalleryPage e cfg pg images =
     (let margin = margin_of cfg;
          pageWidth = page_width pg;
          pageHeight = page_height pg;
          availableWidth = pageWidth - margin * 2;
          availableHeight = pageHeight - margin * 2
      in if length images = 1 then
           addImageToPage e cfg (images ! 0) margin margin availableWidth availableHeight
         else if length images = 2 then
           (let imageHeight = (availableHeight - 20) / 2
            in addImageToPage e cfg (images ! 0) margin margin availableWidth imageHeight @
               addImageToPage e cfg (images ! 1) margin (margin + imageHeight + 20)
                 availableWidth imageHeight)
         else
           concat (map (\<lambda>i.
               let c = gridCell margin availableWidth availableHeight (length images) i
               in addImageToPage e cfg (images ! i) (rx c) (ry c) (rw c) (rh c))
             [0..<length images]))"

definition createFullPage :: "env \<Rightarrow> config \<Rightarrow> page \<Rightarrow> image \<Rightarrow> cmd list" where
  "createFullPage e cfg pg img =
     (let margin = margin_of cfg;
          pageWidth = page_width pg;
          pageHeight = page_height pg
      in addImageToPage e cfg img margin margin
           (pageWidth - margin * 2) (pageHeight - margin * 2))"

subsection \<open>Text\<close>

text \<open>
  \<^verbatim>\<open>doc.fontSize(size).font(font).text(s, x, y, opts)\<close>: the three calls, and the
  \<^verbatim>\<open>doc.y\<close> the writer is left with.
\<close>

definition textAt ::
  "env \<Rightarrow> real \<Rightarrow> string \<Rightarrow> string \<Rightarrow> real \<Rightarrow> real \<Rightarrow> real option \<Rightarrow> string option
    \<Rightarrow> cmd list \<times> real" where
  "textAt e fontSize font s x y width align =
     ([FontSize fontSize, Font font, Text s x y width align],
      y + text_height e font fontSize s width)"

definition defaultFonts :: fonts where
  "defaultFonts = \<lparr> f_title = ''Helvetica-Bold'', f_heading = ''Helvetica'',
                     f_body = ''Helvetica'', f_caption = ''Helvetica-Oblique'' \<rparr>"

definition fonts_of :: "config \<Rightarrow> fonts" where
  "fonts_of cfg = (case cfg_fonts cfg of None \<Rightarrow> defaultFonts | Some f \<Rightarrow> f)"

text \<open>The separator of the medium line: a bullet (U+2022, here in UTF-8) between spaces.\<close>

definition bullet :: string where
  "bullet = [CHR '' '', CHR 0xE2, CHR 0x80, CHR 0xA2, CHR '' '']"

definition isSpace :: "char \<Rightarrow> bool" where
  "isSpace c = (c = CHR '' '' \<or> c = CHR 0x0A \<or> c = CHR 0x09 \<or> c = CHR 0x0D \<or>
                c = CHR 0x0B \<or> c = CHR 0x0C)"

definition js_trim :: "string \<Rightarrow> string" where
  "js_trim s = rev (dropWhile isSpace (rev (dropWhile isSpace s)))"

definition hasCredits :: "project \<Rightarrow> bool" where
  "hasCredits proj =
     (truthy (p_collective proj) \<or> truthy (p_curator proj) \<or> truthy (p_publisher proj))"

subsection \<open>The cover and the default info page\<close>

definition createCoverPage :: "env \<Rightarrow> config \<Rightarrow> page \<Rightarrow> cmd list" where
  "createCoverPage e cfg pg =
     (let pageWidth = page_width pg;
          pageHeight = page_height pg;
          margin = margin_of cfg;
          fonts = fonts_of cfg;
          wd = Some (pageWidth - margin * 2);
          ce = Some ''center'';
          (c1, y1) = textAt e 36 (f_title fonts) (str_of (cfg_title cfg)) margin (pageHeight / 3) wd ce;
          (c2, y2) = (if truthy (cfg_subtitle cfg)
                      then textAt e 18 (f_heading fonts) (str_of (cfg_subtitle cfg)) margin (y1 + 20) wd ce
                      else ([], y1));
          authorY = pageHeight - margin * 5;
          (c3, y3) = textAt e 12 (f_body fonts) (str_of (cfg_author cfg)) margin authorY wd ce;
          (c4, y4) = (if truthy (cfg_email cfg)
                      then ([Text (str_of (cfg_email cfg)) margin (y3 + 15) wd ce],
                            y3 + 15 + text_height e (f_body fonts) 12 (str_of (cfg_email cfg)) wd)
                      else ([], y3));
          c5 = (if truthy (cfg_website cfg)
                then [Text (str_of (cfg_website cfg)) margin (y4 + 15) wd ce]
                else [])
      in c1 @ c2 @ c3 @ c4 @ c5 @ [AddPage])"

definition createInfoPage :: "env \<Rightarrow> config \<Rightarrow> page \<Rightarrow> project \<Rightarrow> cmd list" where
  "createInfoPage e cfg pg proj =
     (let margin = margin_of cfg;
          pageWidth = page_width pg;
          (c1, y1) = textAt e 24 ''Helvetica-Bold'' (p_title proj) margin (margin + 20) None None;
          mediumYearText = p_medium proj @ bullet @ p_year proj @
            (if truthy (p_duration proj) then bullet @ str_of (p_duration proj) else []);
          (c2, y2) = textAt e 14 ''Helvetica'' mediumYearText margin (y1 + 20) None None;
          creditsText =
            (if truthy (p_collective proj) then ''Collective: '' @ str_of (p_collective proj) else []) @
            (if truthy (p_curator proj) then ''Curator: '' @ str_of (p_curator proj) else []) @
            (if truthy (p_publisher proj) then ''Published by: '' @ str_of (p_publisher proj) else []);
          (c3, y3) = (if hasCredits proj
                      then textAt e 12 ''Helvetica-Oblique'' creditsText margin (y2 + 15) None None
                      else ([], y2));
          wd = Some (pageWidth - margin * 2);
          (c4, y4) = (if p_description proj \<noteq> []
                      then textAt e 12 ''Helvetica'' (p_description proj) margin (y3 + 30) wd (Some ''left'')
                      else ([], y3));
          (c5, y5) = (if truthy (p_link proj)
                      then textAt e 10 ''Helvetica-Oblique'' (str_of (p_link proj)) margin (y4 + 20) wd (Some ''left'')
                      else ([], y4))
      in c1 @ c2 @ c3 @ c4 @ c5)"

text \<open>\<^verbatim>\<open>project.processedImages.find(img => img.name === name)\<close>.\<close>

definition findImage :: "project \<Rightarrow> string \<Rightarrow> image option" where
  "findImage proj name = find (\<lambda>img. img_name img = name) (p_processedImages proj)"

subsection \<open>Info pages of an explicit layout\<close>

text \<open>
  One turn of the loop of \<^verbatim>\<open>createSingleColumnInfoPage\<close>: the commands and the new
  \<^verbatim>\<open>currentY\<close>.
\<close>

definition singleColumnItem ::
  "env \<Rightarrow> config \<Rightarrow> page \<Rightarrow> project \<Rightarrow> string \<Rightarrow> real \<Rightarrow> cmd list \<times> real" where
  "singleColumnItem e cfg pg proj item currentY =
     (let margin = margin_of cfg;
          pageWidth = page_width pg;
          pageHeight = page_height pg;
          fonts = fonts_of cfg;
          wd = Some (pageWidth - margin * 2)
      in if item = ''title'' then
           (let (c, y) = textAt e 24 (f_title fonts) (p_title proj) margin currentY None None
            in (c, y + 20))
         else if item = ''medium'' then
           (let mediumText = p_medium proj @
                  (if truthy (p_duration proj) then bullet @ str_of (p_duration proj) else []);
                (c, y) = textAt e 14 (f_heading fonts) mediumText margin currentY None None
            in (c, y + 10))
         else if item = ''year'' then
           (let (c, y) = textAt e 14 (f_heading fonts) (p_year proj) margin currentY None None
            in (c, y + 10))
         else if item = ''credits'' then
           (if hasCredits proj then
              (let creditsText =
                     (if truthy (p_collective proj)
                      then ''Collective: '' @ str_of (p_collective proj) @ [CHR 0x0A] else []) @
                     (if truthy (p_curator proj)
                      then ''Curator: '' @ str_of (p_curator proj) @ [CHR 0x0A] else []) @
                     (if truthy (p_publisher proj)
                      then ''Published by: '' @ str_of (p_publisher proj) else []);
                   (c, y) = textAt e 12 (f_caption fonts) (js_trim creditsText) margin currentY None None
               in (c, y + 15))
            else ([], currentY))
         else if item = ''description'' then
           (let (c, y) = textAt e 12 (f_body fonts) (p_description proj) margin currentY wd None
            in (c, y + 20))
         else if item = ''link'' then
           (if truthy (p_link proj) then
              (let (c, y) = textAt e 10 (f_caption fonts) (str_of (p_link proj)) margin currentY wd None
               in (c, y + 15))
            else ([], currentY))
         else if matchesImage item then
           (case findImage proj item of
              None \<Rightarrow> ([], currentY)
            | Some img \<Rightarrow>
                (let remainingHeight = pageHeight - currentY - margin;
                     maxImageHeight = min (remainingHeight * (6 / 10)) (min (pageHeight * (4 / 10)) 400)
                 in (addImageToPage e cfg img margin currentY (pageWidth - margin * 2) maxImageHeight,
                     currentY + (maxImageHeight + 20))))
         else ([], currentY))"

fun singleColumnItems ::
  "env \<Rightarrow> config \<Rightarrow> page \<Rightarrow> project \<Rightarrow> string list \<Rightarrow> real \<Rightarrow> cmd list" where
  "singleColumnItems e cfg pg proj [] currentY = []"
| "singleColumnItems e cfg pg proj (item # rest) currentY =
     (let (c, y) = singleColumnItem e cfg pg proj item currentY
      in c @ singleColumnItems e cfg pg proj rest y)"

definition createSingleColumnInfoPage ::
  "env \<Rightarrow> config \<Rightarrow> page \<Rightarrow> project \<Rightarrow> layoutPage \<Rightarrow> cmd list" where
  "createSingleColumnInfoPage e cfg pg proj lp =
     singleColumnItems e cfg pg proj (pg_content lp) (margin_of cfg + 20)"

text \<open>The table \<^verbatim>\<open>lineSpacing\<close> of \<^verbatim>\<open>createTwoColumnInfoPage\<close>.\<close>

definition lineSpacing_title :: real where
  "lineSpacing_title = 44 + 20"

definition lineSpacing_medium :: real where
  "lineSpacing_medium = 14 + 10"

definition lineSpacing_year :: real where
  "lineSpacing_year = 14 + 10"

definition lineSpacing_link :: real where
  "lineSpacing_link = 10 + 15"

definition textColumnWidth :: "config \<Rightarrow> page \<Rightarrow> real" where
  "textColumnWidth cfg pg = (page_width pg - margin_of cfg * 2 - 40) * (45 / 100)"

definition imageColumnWidth :: "config \<Rightarrow> page \<Rightarrow> real" where
  "imageColumnWidth cfg pg = (page_width pg - margin_of cfg * 2 - 40) * (55 / 100)"

definition descriptionHeight :: "env \<Rightarrow> config \<Rightarrow> page \<Rightarrow> project \<Rightarrow> real" where
  "descriptionHeight e cfg pg proj =
     text_height e (f_body (fonts_of cfg)) 12 (p_description proj) (Some (textColumnWidth cfg pg))"

text \<open>The first loop (lines 454 to 474): the height the text is expected to take.\<close>

fun sumTextHeight :: "project \<Rightarrow> real \<Rightarrow> string list \<Rightarrow> real \<Rightarrow> real" where
  "sumTextHeight proj dh [] textHeight = textHeight"
| "sumTextHeight proj dh (item # rest) textHeight =
     sumTextHeight proj dh rest
       (if matchesImage item then textHeight
        else if item = ''title'' then textHeight + lineSpacing_title
        else if item = ''medium'' then textHeight + lineSpacing_medium
        else if item = ''year'' then textHeight + lineSpacing_year
        else if item = ''description'' then textHeight + (dh + 20)
        else if item = ''link'' then
          (if truthy (p_link proj) then textHeight + lineSpacing_link else textHeight)
        else textHeight)"

definition twoColumnTextHeight :: "env \<Rightarrow> config \<Rightarrow> page \<Rightarrow> project \<Rightarrow> layoutPage \<Rightarrow> real" where
  "twoColumnTextHeight e cfg pg proj lp =
     sumTextHeight proj (descriptionHeight e cfg pg proj) (pg_content lp) 0"

text \<open>One turn of the second loop (lines 484 to 530).\<close>

definition twoColumnItem ::
  "env \<Rightarrow> config \<Rightarrow> page \<Rightarrow> project \<Rightarrow> string \<Rightarrow> real \<Rightarrow> cmd list \<times> real" where
  "twoColumnItem e cfg pg proj item currentY =
     (let margin = margin_of cfg;
          fonts = fonts_of cfg;
          wd = Some (textColumnWidth cfg pg)
      in if matchesImage item then ([], currentY)
         else if item = ''title'' then
           (let (c, y) = textAt e 24 (f_title fonts) (p_title proj) margin currentY wd None
            in (c, y + 20))
         else if item = ''medium'' then
           (let mediumText = p_medium proj @
                  (if truthy (p_duration proj) then bullet @ str_of (p_duration proj) else []);
                (c, y) = textAt e 14 (f_heading fonts) mediumText margin currentY wd None
            in (c, y + 10))
         else if item = ''year'' then
           (let (c, y) = textAt e 14 (f_heading fonts) (p_year proj) margin currentY wd None
            in (c, y + 10))
         else if item = ''description'' then
           (let (c, y) = textAt e 12 (f_body fonts) (p_description proj) margin currentY wd None
            in (c, y + 20))
         else if item = ''link'' then
           (if truthy (p_link proj) then
              (let (c, y) = textAt e 10 (f_caption fonts) (str_of (p_link proj)) margin currentY wd None
               in (c, y + 15))
            else ([], currentY))
         else ([], currentY))"

fun twoColumnItems ::
  "env \<Rightarrow> config \<Rightarrow> page \<Rightarrow> project \<Rightarrow> string list \<Rightarrow> real \<Rightarrow> cmd list \<times> real" where
  "twoColumnItems e cfg pg proj [] currentY = ([], currentY)"
| "twoColumnItems e cfg pg proj (item # rest) currentY =
     (let (c, y) = twoColumnItem e cfg pg proj item currentY;
          (cs, y') = twoColumnItems e cfg pg proj rest y
      in (c @ cs, y'))"

text \<open>Where the text starts: centred on the expected height.\<close>

definition twoColumnStartY :: "env \<Rightarrow> config \<Rightarrow> page \<Rightarrow> project \<Rightarrow> layoutPage \<Rightarrow> real" where
  "twoColumnStartY e cfg pg proj lp =
     (let margin = margin_of cfg;
          availableHeight = page_height pg - margin * 2
      in margin + (availableHeight - twoColumnTextHeight e cfg pg proj lp) / 2)"

definition createTwoColumnInfoPage ::
  "env \<Rightarrow> config \<Rightarrow> page \<Rightarrow> project \<Rightarrow> layoutPage \<Rightarrow> cmd list" where
  "createTwoColumnInfoPage e cfg pg proj lp =
     (let margin = margin_of cfg;
          pageHeight = page_height pg;
          imageColumnX = margin + textColumnWidth cfg pg + 40;
          currentY = twoColumnStartY e cfg pg proj lp;
          imageItem = find matchesImage (pg_content lp);
          (texts, y) = twoColumnItems e cfg pg proj (pg_content lp) currentY
      in [FontSize 12, Font (f_body (fonts_of cfg))] @ texts @
         (case imageItem of
            None \<Rightarrow> []
          | Some item \<Rightarrow>
              (case findImage proj item of
                 None \<Rightarrow> []
               | Some img \<Rightarrow>
                   (let imageHeight = pageHeight - margin * 3
                    in addImageToPage e cfg img imageColumnX (margin + 20)
                         (imageColumnWidth cfg pg) imageHeight))))"

definition createInfoPageFromLayout ::
  "env \<Rightarrow> config \<Rightarrow> page \<Rightarrow> project \<Rightarrow> layoutPage \<Rightarrow> cmd list" where
  "createInfoPageFromLayout e cfg pg proj lp =
     (let hasImage = list_ex matchesImage (pg_content lp);
          isLandscape = page_width pg > page_height pg
      in if hasImage \<and> isLandscape then createTwoColumnInfoPage e cfg pg proj lp
         else createSingleColumnInfoPage e cfg pg proj lp)"

subsection \<open>The pages of a project\<close>

text \<open>The filter of the gallery case: the three suffixes, compared as they are.\<close>

definition galleryFilter :: "string \<Rightarrow> bool" where
  "galleryFilter item = (endsWith item ''.jpg'' \<or> endsWith item ''.png'' \<or> endsWith item ''.jpeg'')"

definition galleryImages :: "project \<Rightarrow> layoutPage \<Rightarrow> image list" where
  "galleryImages proj lp =
     List.map_filter (\<lambda>imageName. findImage proj imageName)
       (filter galleryFilter (pg_content lp))"

definition createProjectPage ::
  "env \<Rightarrow> config \<Rightarrow> page \<Rightarrow> project \<Rightarrow> layoutPage \<Rightarrow> cmd list" where
  "createProjectPage e cfg pg proj lp =
     (if pg_type lp = ''info'' then createInfoPageFromLayout e cfg pg proj lp
      else if pg_type lp = ''gallery'' then createGalleryPage e cfg pg (galleryImages proj lp)
      else if pg_type lp = ''full'' then
        (case (case pg_content lp of [] \<Rightarrow> None | name # _ \<Rightarrow> findImage proj name) of
           None \<Rightarrow> []
         | Some fullImage \<Rightarrow> createFullPage e cfg pg fullImage)
      else [])"

text \<open>The loop of \<^verbatim>\<open>createProjectPages\<close> over the pages of the layout.\<close>

fun layoutPages ::
  "env \<Rightarrow> config \<Rightarrow> page \<Rightarrow> project \<Rightarrow> layoutPage list \<Rightarrow> cmd list" where
  "layoutPages e cfg pg proj [] = []"
| "layoutPages e cfg pg proj (lp # rest) =
     createProjectPage e cfg pg proj lp @ [AddPage] @ layoutPages e cfg pg proj rest"

text \<open>The loop of \<^verbatim>\<open>createDefaultProjectLayout\<close>, from index \<open>i\<close>.\<close>

function galleryLoop :: "env \<Rightarrow> config \<Rightarrow> page \<Rightarrow> image list \<Rightarrow> nat \<Rightarrow> cmd list" where
  "galleryLoop e cfg pg images i =
     (if i < length images then
        (let pageImages = take 2 (drop i images)
         in createGalleryPage e cfg pg pageImages @
            (if i + 2 < length images then [AddPage] else []) @
            galleryLoop e cfg pg images (i + 2))
      else [])"
  by pat_completeness auto
termination
  by (relation "measure (\<lambda>(e, cfg, pg, images, i). length images - i)") auto

declare galleryLoop.simps [simp del]

definition createDefaultProjectLayout :: "env \<Rightarrow> config \<Rightarrow> page \<Rightarrow> project \<Rightarrow> cmd list" where
  "createDefaultProjectLayout e cfg pg proj =
     createInfoPage e cfg pg proj @ [AddPage] @
     galleryLoop e cfg pg (p_processedImages proj) 0"

definition createProjectPages :: "env \<Rightarrow> config \<Rightarrow> page \<Rightarrow> project \<Rightarrow> cmd list" where
  "createProjectPages e cfg pg proj =
     (case (case p_layout proj of None \<Rightarrow> None | Some lo \<Rightarrow> lo_pages lo) of
        None \<Rightarrow> createDefaultProjectLayout e cfg pg proj
      | Some pages \<Rightarrow> layoutPages e cfg pg proj pages)"

subsection \<open>The document\<close>

text \<open>The options \<^verbatim>\<open>createPDF\<close> constructs the writer with.\<close>

record docOptions =
  do_size :: string
  do_layout :: string
  do_top :: real
  do_bottom :: real
  do_left :: real
  do_right :: real
  do_Title :: string
  do_Author :: string

definition docOptionsOf :: "config \<Rightarrow> docOptions" where
  "docOptionsOf cfg =
     \<lparr> do_size = js_or_str (cfg_pageSize cfg) ''A4'',
       do_layout = js_or_str (cfg_orientation cfg) ''landscape'',
       do_top = js_or_num (cfg_margin cfg) 30,
       do_bottom = js_or_num (cfg_margin cfg) 30,
       do_left = js_or_num (cfg_margin cfg) 30,
       do_right = js_or_num (cfg_margin cfg) 30,
       do_Title = js_or_str (cfg_title cfg) ''Portfolio'',
       do_Author = js_or_str (cfg_author cfg) ''Artist'' \<rparr>"

definition createPDF :: "env \<Rightarrow> config \<Rightarrow> project list \<Rightarrow> docOptions \<times> cmd list" where
  "createPDF e cfg projects =
     (let opts = docOptionsOf cfg;
          pg = page_of e (do_size opts) (do_layout opts)
      in (opts,
          createCoverPage e cfg pg @
          concat (map (createProjectPages e cfg pg) projects)))"

subsection \<open>Notions used to state the properties\<close>

text \<open>Two rectangles overlap when their interiors meet.\<close>

definition overlap :: "rect \<Rightarrow> rect \<Rightarrow> bool" where
  "overlap a b =
     (rx a < rx b + rw b \<and> rx b < rx a + rw a \<and> ry a < ry b + rh b \<and> ry b < ry a + rh a)"

text \<open>A list cut into pages of two, the last one of one element when the length is odd.\<close>

fun pairs :: "'a list \<Rightarrow> 'a list list" where
  "pairs [] = []"
| "pairs [a] = [[a]]"
| "pairs (a # b # rest) = [a, b] # pairs rest"

text \<open>Pages with a page break between two of them, and none after the last.\<close>

fun separated :: "cmd list list \<Rightarrow> cmd list" where
  "separated [] = []"
| "separated [p] = p"
| "separated (p # q # ps) = p @ [AddPage] @ separated (q # ps)"

text \<open>
  The record an image reference stands for: a bare string is its own name, without a
  border; an object gives its name, or its file when it has no name, and its border flag.
\<close>

fun refName :: "imageItem \<Rightarrow> string" where
  "refName (Str s) = s"
| "refName (Obj (Some n) f b) = n"
| "refName (Obj None f b) = str_of f"

fun refBorder :: "imageItem \<Rightarrow> bool" where
  "refBorder (Str s) = False"
| "refBorder (Obj n f b) = (b = Some True)"

text \<open>
  A reference names a file: the name of an object, when present, is not the empty string
  (joined to the project's path it would be the directory itself), and an object without
  a name has a file.
\<close>

fun namesFile :: "imageItem \<Rightarrow> bool" where
  "namesFile (Str s) = True"
| "namesFile (Obj (Some n) f b) = (n \<noteq> [])"
| "namesFile (Obj None f b) = (f \<noteq> None)"

text \<open>The global border policy is enabled.\<close>

definition globalBorder :: "config \<Rightarrow> bool" where
  "globalBorder cfg =
     (case cfg_imageBorder cfg of None \<Rightarrow> False | Some bc \<Rightarrow> ib_enabled bc = Some True)"

text \<open>
  What the second loop of the two-column page adds to \<^verbatim>\<open>currentY\<close>: the heights of
  the texts as rendered, each with its increment.
\<close>

definition twoColumnRendered :: "env \<Rightarrow> config \<Rightarrow> page \<Rightarrow> project \<Rightarrow> layoutPage \<Rightarrow> real" where
  "twoColumnRendered e cfg pg proj lp =
     snd (twoColumnItems e cfg pg proj (pg_content lp) (twoColumnStartY e cfg pg proj lp))
       - twoColumnStartY e cfg pg proj lp"

subsection \<open>A sample portfolio\<close>

text \<open>
  A world with three image files in the directory \<^verbatim>\<open>work\<close>, where a text is one line
  of 1.2 times its font size, and a landscape A4 page.
\<close>

definition sampleEnv :: env where
  "sampleEnv =
     \<lparr> probe = (\<lambda>p. if p = ''work/a.jpg'' then Some \<lparr> md_width = 4000, md_height = 3000, md_format = ''jpeg'' \<rparr>
                     else if p = ''work/b.png'' then Some \<lparr> md_width = 600, md_height = 800, md_format = ''png'' \<rparr>
                     else if p = ''work/PHOTO.JPG'' then Some \<lparr> md_width = 1200, md_height = 800, md_format = ''jpeg'' \<rparr>
                     else None),
       path_join = (\<lambda>a b. a @ ''/'' @ b),
       text_height = (\<lambda>font fontSize s width. fontSize * (12 / 10)),
       resize_ok = (\<lambda>p w h q. True),
       embed_ok = (\<lambda>p. True),
       page_of = (\<lambda>sz lay. \<lparr> page_width = 842, page_height = 595 \<rparr>) \<rparr>"

definition sampleConfig :: config where
  "sampleConfig =
     \<lparr> cfg_title = Some ''Portfolio'', cfg_subtitle = None, cfg_author = Some ''Artist'',
       cfg_email = None, cfg_website = None, cfg_output = None, cfg_pageSize = Some ''A4'',
       cfg_orientation = Some ''landscape'', cfg_margin = Some 30, cfg_dpi = Some 300,
       cfg_fonts = None,
       cfg_imageBorder = Some \<lparr> ib_enabled = Some False, ib_width = Some (1 / 2),
                                 ib_color = Some ''#CCCCCC'' \<rparr> \<rparr>"

definition samplePage :: page where
  "samplePage = \<lparr> page_width = 842, page_height = 595 \<rparr>"

text \<open>A page whose content area is a square of 600 points at the default margin.\<close>

definition squarePage :: page where
  "squarePage = \<lparr> page_width = 660, page_height = 660 \<rparr>"

definition sampleImage :: "string \<Rightarrow> real \<Rightarrow> real \<Rightarrow> bool \<Rightarrow> image" where
  "sampleImage name w h b =
     \<lparr> img_name = name, img_path = ''work/'' @ name, img_width = w, img_height = h,
       img_format = ''jpeg'', img_border = b \<rparr>"

definition sampleProject :: project where
  "sampleProject =
     \<lparr> p_path = ''work'', p_directory = ''work'', p_title = ''Work'', p_medium = ''Video'',
       p_year = ''2024'', p_description = ''A description.'', p_duration = None,
       p_collective = None, p_curator = None, p_publisher = None, p_link = None,
       p_images = Some [Obj (Some ''a.jpg'') None (Some True), Str ''b.png'',
                        Obj None (Some ''PHOTO.JPG'') None, Str ''missing.jpg''],
       p_layout = None,
       p_processedImages = [] \<rparr>"

text \<open>The records of the sample project's images: the missing file is dropped.\<close>

definition sampleImages :: "image list" where
  "sampleImages =
     [\<lparr> img_name = ''a.jpg'', img_path = ''work/a.jpg'', img_width = 4000, img_height = 3000,
        img_format = ''jpeg'', img_border = True \<rparr>,
      \<lparr> img_name = ''b.png'', img_path = ''work/b.png'', img_width = 600, img_height = 800,
        img_format = ''png'', img_border = False \<rparr>,
      \<lparr> img_name = ''PHOTO.JPG'', img_path = ''work/PHOTO.JPG'', img_width = 1200,
        img_height = 800, img_format = ''jpeg'', img_border = False \<rparr>]"

text \<open>References in both forms, one of them twice.\<close>

definition mixedItems :: "imageItem list" where
  "mixedItems =
     [Obj (Some ''a.jpg'') None (Some True), Str ''b.png'',
      Obj None (Some ''PHOTO.JPG'') None, Str ''b.png'']"

definition sampleLoaded :: project where
  "sampleLoaded = sampleProject\<lparr> p_processedImages := sampleImages \<rparr>"

text \<open>A full page for the file that is missing, and a layout of two such pages.\<close>

definition fullMissing :: layoutPage where
  "fullMissing = \<lparr> pg_type = ''full'', pg_content = [''missing.jpg''] \<rparr>"

definition sampleLayoutProject :: project where
  "sampleLayoutProject =
     sampleLoaded\<lparr> p_layout := Some \<lparr> lo_pages = Some [fullMissing, fullMissing] \<rparr> \<rparr>"

text \<open>An info page and a gallery page that name the image with the upper-case extension.\<close>

definition upperInfo :: layoutPage where
  "upperInfo = \<lparr> pg_type = ''info'', pg_content = [''title'', ''description'', ''PHOTO.JPG''] \<rparr>"

definition upperGallery :: layoutPage where
  "upperGallery = \<lparr> pg_type = ''gallery'', pg_content = [''PHOTO.JPG''] \<rparr>"

text \<open>A configuration with a negative margin and a negative resolution.\<close>

definition negativeConfig :: config where
  "negativeConfig = sampleConfig\<lparr> cfg_margin := Some (- 5), cfg_dpi := Some (- 72) \<rparr>"

section \<open>Properties\<close>

subsection \<open>The placement rectangle\<close>

lemma placement_cases:
  assumes "0 < img_width img" "0 < img_height img" "0 < w" "0 < h"
  shows "placement img x y w h =
     (if w * img_height img > h * img_width img
      then \<lparr> rx = x + (w - h * img_width img / img_height img) / 2, ry = y,
             rw = h * img_width img / img_height img, rh = h \<rparr>
      else \<lparr> rx = x, ry = y + (h - w * img_height img / img_width img) / 2,
             rw = w, rh = w * img_height img / img_width img \<rparr>)"
  using assms by (auto simp: placement_def Let_def field_simps)

lemma image_at_placement:
  "Image src a b c d \<in> set (addImageToPage e cfg img x y w h) \<Longrightarrow>
     a = rx (placement img x y w h) \<and> b = ry (placement img x y w h) \<and>
     c = rw (placement img x y w h) \<and> d = rh (placement img x y w h)"
  by (auto simp: addImageToPage_def Let_def borderCmds_def split: option.splits if_splits)

text \<open>
  C1. For an image of positive width and height and a box \<open>(x, y, w, h)\<close> of positive
  width and height, the rectangle computed by \<^verbatim>\<open>addImageToPage\<close> lies inside the box,
  has positive size, has the width or the height of the box, has the aspect ratio of the
  image, leaves equal space left and right and equal space above and below, and is the
  rectangle every image command of \<^verbatim>\<open>addImageToPage\<close> draws in. Numbers are reals.
\<close>

theorem placement_fits_box:
  assumes "0 < img_width img" and "0 < img_height img" and "0 < w" and "0 < h"
  shows "(let r = placement img x y w h in
           x \<le> rx r \<and> rx r + rw r \<le> x + w \<and> y \<le> ry r \<and> ry r + rh r \<le> y + h \<and>
           0 < rw r \<and> 0 < rh r \<and>
           (rw r = w \<or> rh r = h) \<and>
           rw r / rh r = img_width img / img_height img \<and>
           rx r - x = (x + w) - (rx r + rw r) \<and>
           ry r - y = (y + h) - (ry r + rh r) \<and>
           (\<forall>src a b c d. Image src a b c d \<in> set (addImageToPage e cfg img x y w h)
               \<longrightarrow> a = rx r \<and> b = ry r \<and> c = rw r \<and> d = rh r))"
proof -
  have img: "\<forall>src a b c d. Image src a b c d \<in> set (addImageToPage e cfg img x y w h)
      \<longrightarrow> a = rx (placement img x y w h) \<and> b = ry (placement img x y w h) \<and>
          c = rw (placement img x y w h) \<and> d = rh (placement img x y w h)"
    using image_at_placement by blast
  show ?thesis
  proof (cases "w * img_height img > h * img_width img")
    case True
    then show ?thesis using assms img
      unfolding Let_def placement_cases[OF assms] by (simp add: field_simps)
  next
    case False
    then show ?thesis using assms img
      unfolding Let_def placement_cases[OF assms] by (simp add: field_simps)
  qed
qed

theorem placement_fits_box_witness:
  "0 < img_width (sampleImage ''a.jpg'' 4000 3000 True) \<and>
   0 < img_height (sampleImage ''a.jpg'' 4000 3000 True) \<and>
   (0::real) < 381 \<and> (0::real) < 515 / 2 \<and>
   placement (sampleImage ''a.jpg'' 4000 3000 True) 30 30 381 (515 / 2)
     = \<lparr> rx = 293 / 6, ry = 30, rw = 1030 / 3, rh = 515 / 2 \<rparr> \<and>
   30 \<le> rx (placement (sampleImage ''a.jpg'' 4000 3000 True) 30 30 381 (515 / 2)) \<and>
   rx (placement (sampleImage ''a.jpg'' 4000 3000 True) 30 30 381 (515 / 2))
     + rw (placement (sampleImage ''a.jpg'' 4000 3000 True) 30 30 381 (515 / 2)) \<le> 30 + 381 \<and>
   rh (placement (sampleImage ''a.jpg'' 4000 3000 True) 30 30 381 (515 / 2)) = 515 / 2"
  using placement_fits_box [of "sampleImage ''a.jpg'' 4000 3000 True" 381 "515 / 2" 30 30
      sampleEnv sampleConfig]
  by (simp add: sampleImage_def placement_def Let_def)

subsection \<open>Galleries\<close>

lemma placement_inside:
  assumes "0 < img_width img" and "0 < img_height img" and "0 < w" and "0 < h"
  shows "x \<le> rx (placement img x y w h)"
    and "rx (placement img x y w h) + rw (placement img x y w h) \<le> x + w"
    and "y \<le> ry (placement img x y w h)"
    and "ry (placement img x y w h) + rh (placement img x y w h) \<le> y + h"
  using assms unfolding placement_cases[OF assms] by (simp_all add: field_simps)

text \<open>
  C3. A gallery page of exactly two images calls \<^verbatim>\<open>addImageToPage\<close> on two boxes that
  do not depend on the images: both start at the left margin and have the whole available
  width, each is \<open>(availableHeight - 20) / 2\<close> high, and the second starts 20 points
  below the bottom of the first. Whatever the aspect ratios and the page, the two boxes
  are one above the other and never side by side; when the images and the boxes have
  positive sizes, each image is drawn between the left margin and the right one, and the
  second at least 20 points below the bottom of the first.
\<close>

theorem two_images_stacked:
  "(let m = margin_of cfg;
        availableWidth = page_width pg - m * 2;
        availableHeight = page_height pg - m * 2;
        boxHeight = (availableHeight - 20) / 2
    in createGalleryPage e cfg pg [a, b] =
         addImageToPage e cfg a m m availableWidth boxHeight @
         addImageToPage e cfg b m (m + boxHeight + 20) availableWidth boxHeight \<and>
       (0 < img_width a \<and> 0 < img_height a \<and> 0 < img_width b \<and> 0 < img_height b \<and>
        0 < availableWidth \<and> 0 < boxHeight \<and>
        Image sa xa ya wa ha \<in> set (addImageToPage e cfg a m m availableWidth boxHeight) \<and>
        Image sb xb yb wb hb
          \<in> set (addImageToPage e cfg b m (m + boxHeight + 20) availableWidth boxHeight)
        \<longrightarrow> ya + ha + 20 \<le> yb \<and>
            m \<le> xa \<and> xa + wa \<le> m + availableWidth \<and>
            m \<le> xb \<and> xb + wb \<le> m + availableWidth))"
proof -
  define m where "m = margin_of cfg"
  define aw where "aw = page_width pg - m * 2"
  define bh where "bh = (page_height pg - m * 2 - 20) / 2"
  have page: "createGalleryPage e cfg pg [a, b] =
      addImageToPage e cfg a m m aw bh @ addImageToPage e cfg b m (m + bh + 20) aw bh"
    by (simp add: createGalleryPage_def Let_def m_def aw_def bh_def)
  have drawn: "ya + ha + 20 \<le> yb \<and> m \<le> xa \<and> xa + wa \<le> m + aw \<and> m \<le> xb \<and> xb + wb \<le> m + aw"
    if pos: "0 < img_width a" "0 < img_height a" "0 < img_width b" "0 < img_height b"
      "0 < aw" "0 < bh"
      and ia: "Image sa xa ya wa ha \<in> set (addImageToPage e cfg a m m aw bh)"
      and ib: "Image sb xb yb wb hb \<in> set (addImageToPage e cfg b m (m + bh + 20) aw bh)"
  proof -
    note pa = placement_inside[OF pos(1,2,5,6), where x = m and y = m]
    note pb = placement_inside[OF pos(3,4,5,6), where x = m and y = "m + bh + 20"]
    from image_at_placement[OF ia] image_at_placement[OF ib] pa pb
    show ?thesis by simp
  qed
  show ?thesis
    unfolding Let_def m_def[symmetric] aw_def[symmetric] bh_def[symmetric]
    using page drawn by blast
qed

lemma sample_pair_first:
  "addImageToPage sampleEnv sampleConfig (sampleImages ! 0) 30 30 782 (515 / 2) =
     [Image (Resized ''work/a.jpg'' 1431 1073 95) (748 / 3) 30 (1030 / 3) (515 / 2),
      Save, LineWidth (1 / 2), StrokeColor ''#CCCCCC'',
      Rect (748 / 3) 30 (1030 / 3) (515 / 2), Stroke, Restore]"
  by code_simp

lemma sample_pair_second:
  "addImageToPage sampleEnv sampleConfig (sampleImages ! 1) 30 (30 + 515 / 2 + 20) 782 (515 / 2) =
     [Image (File ''work/b.png'') (5191 / 16) (615 / 2) (1545 / 8) (515 / 2)]"
  by code_simp

theorem two_images_stacked_witness:
  "0 < img_width (sampleImages ! 0) \<and> 0 < img_height (sampleImages ! 0) \<and>
   0 < img_width (sampleImages ! 1) \<and> 0 < img_height (sampleImages ! 1) \<and>
   Image (Resized ''work/a.jpg'' 1431 1073 95) (748 / 3) 30 (1030 / 3) (515 / 2)
     \<in> set (addImageToPage sampleEnv sampleConfig (sampleImages ! 0) 30 30 782 (515 / 2)) \<and>
   Image (File ''work/b.png'') (5191 / 16) (615 / 2) (1545 / 8) (515 / 2)
     \<in> set (addImageToPage sampleEnv sampleConfig (sampleImages ! 1) 30 (30 + 515 / 2 + 20)
         782 (515 / 2)) \<and>
   createGalleryPage sampleEnv sampleConfig samplePage [sampleImages ! 0, sampleImages ! 1] =
     addImageToPage sampleEnv sampleConfig (sampleImages ! 0) 30 30 782 (515 / 2) @
     addImageToPage sampleEnv sampleConfig (sampleImages ! 1) 30 (30 + 515 / 2 + 20) 782 (515 / 2) \<and>
   (30 :: real) + 515 / 2 + 20 \<le> 615 / 2"
proof -
  have m: "margin_of sampleConfig = 30" "page_width samplePage - 30 * 2 = 782"
    "(page_height samplePage - 30 * 2 - 20) / 2 = 515 / 2"
    by (simp_all add: margin_of_def js_or_num_def sampleConfig_def samplePage_def)
  have pos: "0 < img_width (sampleImages ! 0)" "0 < img_height (sampleImages ! 0)"
    "0 < img_width (sampleImages ! 1)" "0 < img_height (sampleImages ! 1)"
    by (simp_all add: sampleImages_def)
  have ia: "Image (Resized ''work/a.jpg'' 1431 1073 95) (748 / 3) 30 (1030 / 3) (515 / 2)
     \<in> set (addImageToPage sampleEnv sampleConfig (sampleImages ! 0) 30 30 782 (515 / 2))"
    by (simp only: sample_pair_first list.set_intros)
  have ib: "Image (File ''work/b.png'') (5191 / 16) (615 / 2) (1545 / 8) (515 / 2)
     \<in> set (addImageToPage sampleEnv sampleConfig (sampleImages ! 1) 30 (30 + 515 / 2 + 20)
         782 (515 / 2))"
    by (simp only: sample_pair_second list.set_intros)
  note r = two_images_stacked[where cfg = sampleConfig and pg = samplePage and e = sampleEnv
      and a = "sampleImages ! 0" and b = "sampleImages ! 1"
      and sa = "Resized ''work/a.jpg'' 1431 1073 95" and xa = "748 / 3" and ya = 30
      and wa = "1030 / 3" and ha = "515 / 2"
      and sb = "File ''work/b.png''" and xb = "5191 / 16" and yb = "615 / 2"
      and wb = "1545 / 8" and hb = "515 / 2", unfolded Let_def m]
  have sizes: "(0 :: real) < 782" "(0 :: real) < 515 / 2" by simp_all
  from r[THEN conjunct1] r[THEN conjunct2, THEN mp, OF conjI[OF pos(1) conjI[OF pos(2)
      conjI[OF pos(3) conjI[OF pos(4) conjI[OF sizes(1) conjI[OF sizes(2) conjI[OF ia ib]]]]]]],
      THEN conjunct1] pos ia ib
  show ?thesis by (intro conjI)
qed

subsection \<open>The grid of a gallery\<close>


lemma ceil_sqrt_least:
  "n \<le> ceil_sqrt n * ceil_sqrt n \<and> (\<forall>c < ceil_sqrt n. c * c < n)"
proof -
  have "n \<in> set [0..<Suc n] \<and> n \<le> n * n" by (cases n) auto
  then have "find (\<lambda>c. n \<le> c * c) [0..<Suc n] \<noteq> None"
    unfolding find_None_iff by blast
  then obtain c where c: "find (\<lambda>c. n \<le> c * c) [0..<Suc n] = Some c" by blast
  then obtain i where i: "i < length [0..<Suc n]" "n \<le> ([0..<Suc n] ! i) * ([0..<Suc n] ! i)"
      "c = [0..<Suc n] ! i" "\<forall>j<i. \<not> n \<le> ([0..<Suc n] ! j) * ([0..<Suc n] ! j)"
    unfolding find_Some_iff by blast
  have ci: "c = i" using i(1,3) by (metis add_0 diff_zero length_upt nth_upt)
  have "\<forall>j<c. j * j < n"
  proof (intro allI impI)
    fix j assume "j < c"
    then have "j < i" "j < length [0..<Suc n]" using ci i(1) by auto
    then have "\<not> n \<le> ([0..<Suc n] ! j) * ([0..<Suc n] ! j)" "[0..<Suc n] ! j = j"
      using i(4) by (auto simp del: upt_Suc)
    then show "j * j < n" by simp
  qed
  moreover have "n \<le> c * c" using i(2,3) by simp
  ultimately show ?thesis using c by (simp add: ceil_sqrt_def)
qed

lemma ceil_sqrt_eq: "int (ceil_sqrt n) = \<lceil>sqrt (real n)\<rceil>"
proof -
  let ?c = "ceil_sqrt n"
  have up: "sqrt (real n) \<le> real ?c"
  proof (rule real_le_lsqrt)
    have "real n \<le> real (?c * ?c)" using ceil_sqrt_least[of n] by (simp only: of_nat_le_iff)
    then show "real n \<le> (real ?c)\<^sup>2" by (simp add: power2_eq_square)
  qed simp
  have low: "real ?c - 1 < sqrt (real n)"
  proof (cases "?c = 0")
    case True
    have "(- 1 :: real) < 0" by simp
    also have "0 \<le> sqrt (real n)" by simp
    finally show ?thesis using True by simp
  next
    case False
    then have "(?c - 1) * (?c - 1) < n" using ceil_sqrt_least[of n] by simp
    then have "real ((?c - 1) * (?c - 1)) < real n" by (simp only: of_nat_less_iff)
    then have "(real (?c - 1))\<^sup>2 < real n" by (simp add: power2_eq_square)
    then have "real (?c - 1) < sqrt (real n)" by (rule real_less_rsqrt)
    then show ?thesis using False by (simp add: of_nat_diff)
  qed
  have "\<lceil>sqrt (real n)\<rceil> = int ?c"
    by (rule ceiling_unique) (use up low in simp_all)
  then show ?thesis by simp
qed

lemma ceil_sqrt_pos: "0 < n \<Longrightarrow> 0 < ceil_sqrt n"
  using ceil_sqrt_least[of n] by (cases "ceil_sqrt n") auto

lemma gridCols_eq: "gridCols n = real (nat \<lceil>sqrt (real n)\<rceil>)"
  by (simp add: gridCols_def ceil_sqrt_eq[symmetric])

lemma gridRows_eq: "gridRows n = real (nat \<lceil>real n / real (nat \<lceil>sqrt (real n)\<rceil>)\<rceil>)"
proof -
  have "0 \<le> real n / real (ceil_sqrt n)" by simp
  then have "0 \<le> \<lceil>real n / real (ceil_sqrt n)\<rceil>" by (simp only: zero_le_ceiling)
  then show ?thesis
    by (simp add: gridRows_def gridCols_def ceil_sqrt_eq[symmetric])
qed

lemma axis_separate:
  fixes s m :: real and a b :: nat
  assumes "a < b"
  shows "\<not> (m + real a * (s + 20) < m + real b * (s + 20) + s \<and>
            m + real b * (s + 20) < m + real a * (s + 20) + s)"
proof (cases "0 < s + 20")
  case True
  have "1 \<le> real b - real a" using assms by simp
  then have "1 * (s + 20) \<le> (real b - real a) * (s + 20)"
    using True by (intro mult_right_mono) simp_all
  then have "real a * (s + 20) + s < real b * (s + 20)" by (simp add: algebra_simps)
  then show ?thesis by simp
next
  case False
  have "0 \<le> real b - real a" using assms by simp
  then have "(real b - real a) * (s + 20) \<le> 0"
    using False by (intro mult_nonneg_nonpos) simp_all
  then have "real b * (s + 20) + s \<le> real a * (s + 20)" using False by (simp add: algebra_simps)
  then show ?thesis by simp
qed

lemma cells_apart:
  fixes cw ch m :: real
  assumes "0 < cols" and "i \<noteq> j"
  shows "\<not> overlap
      \<lparr> rx = m + real (i mod cols) * (cw + 20), ry = m + real (i div cols) * (ch + 20), rw = cw, rh = ch \<rparr>
      \<lparr> rx = m + real (j mod cols) * (cw + 20), ry = m + real (j div cols) * (ch + 20), rw = cw, rh = ch \<rparr>"
proof -
  have "i mod cols \<noteq> j mod cols \<or> i div cols \<noteq> j div cols"
    using assms(2) by (metis div_mult_mod_eq)
  then consider "i mod cols < j mod cols" | "j mod cols < i mod cols"
    | "i div cols < j div cols" | "j div cols < i div cols"
    by linarith
  then show ?thesis
  proof cases
    case 1 from axis_separate[OF this, of m cw] show ?thesis by (auto simp: overlap_def)
  next
    case 2 from axis_separate[OF this, of m cw] show ?thesis by (auto simp: overlap_def)
  next
    case 3 from axis_separate[OF this, of m ch] show ?thesis by (auto simp: overlap_def)
  next
    case 4 from axis_separate[OF this, of m ch] show ?thesis by (auto simp: overlap_def)
  qed
qed

lemma row_in_range:
  assumes "0 < cols" and "i < n"
  shows "i div cols < nat \<lceil>real n / real cols\<rceil>"
proof -
  have "0 \<le> real n / real cols" by simp
  then have "0 \<le> \<lceil>real n / real cols\<rceil>" by (simp only: zero_le_ceiling)
  then have "real (nat \<lceil>real n / real cols\<rceil>) = of_int \<lceil>real n / real cols\<rceil>"
    by simp
  then have "real n / real cols \<le> real (nat \<lceil>real n / real cols\<rceil>)"
    by (simp only: le_of_int_ceiling)
  moreover have "0 < real cols" using assms(1) by simp
  ultimately have "real n \<le> real (nat \<lceil>real n / real cols\<rceil>) * real cols"
    by (simp only: pos_divide_le_eq)
  then have "n \<le> nat \<lceil>real n / real cols\<rceil> * cols"
    by (metis of_nat_le_iff of_nat_mult)
  then have "i < nat \<lceil>real n / real cols\<rceil> * cols" using assms(2) by simp
  then show ?thesis using assms(1) by (simp add: div_less_iff_less_mult)
qed


lemma ceil_sqrt_nat: "ceil_sqrt n = nat \<lceil>sqrt (real n)\<rceil>"
  using ceil_sqrt_eq[of n] by simp

lemma gridCell_eq:
  "gridCell m aw ah n i =
     (let cols = nat \<lceil>sqrt (real n)\<rceil>;
          rows = nat \<lceil>real n / real cols\<rceil>;
          cw = (aw - 20 * (real cols - 1)) / real cols;
          ch = (ah - 20 * (real rows - 1)) / real rows
      in \<lparr> rx = m + real (i mod cols) * (cw + 20), ry = m + real (i div cols) * (ch + 20),
           rw = cw, rh = ch \<rparr>)"
  by (simp only: gridCell_def Let_def gridCols_eq gridRows_eq ceil_sqrt_nat)

lemma ceil_sqrt_5: "ceil_sqrt 5 = 3"
  by code_simp

lemma gridRows_5: "gridRows 5 = 2"
  by (simp add: gridRows_def gridCols_def ceil_sqrt_5)

text \<open>
  C2. A gallery page of \<open>n \<ge> 3\<close> images calls \<^verbatim>\<open>addImageToPage\<close> once per image, in
  order, on the cell of a grid of \<open>\<lceil>sqrt n\<rceil>\<close> columns and \<open>\<lceil>n / columns\<rceil>\<close> rows: the
  cell is \<open>(availableWidth - 20 (columns - 1)) / columns\<close> wide and
  \<open>(availableHeight - 20 (rows - 1)) / rows\<close> high, image \<open>i\<close> is in column
  \<open>i mod columns\<close> of row \<open>i div columns\<close>, two cells never overlap, every image is
  inside the grid, and a cell of the grid whose row-major index is \<open>n\<close> or more holds no
  image. With five images and a square content area of side \<open>a\<close> the grid has 3 columns
  and 2 rows, the five cells are as listed, and the cell in column 2 of row 1 is none of
  them.
\<close>

theorem gallery_grid:
  "(3 \<le> length images \<longrightarrow>
     (let n = length images;
          m = margin_of cfg;
          availableWidth = page_width pg - m * 2;
          availableHeight = page_height pg - m * 2;
          cols = nat \<lceil>sqrt (real n)\<rceil>;
          rows = nat \<lceil>real n / real cols\<rceil>;
          cw = (availableWidth - 20 * (real cols - 1)) / real cols;
          ch = (availableHeight - 20 * (real rows - 1)) / real rows;
          cell = (\<lambda>i. \<lparr> rx = m + real (i mod cols) * (cw + 20),
                         ry = m + real (i div cols) * (ch + 20), rw = cw, rh = ch \<rparr>)
      in createGalleryPage e cfg pg images =
           concat (map (\<lambda>i. addImageToPage e cfg (images ! i)
                               (rx (cell i)) (ry (cell i)) (rw (cell i)) (rh (cell i)))
                     [0..<n]) \<and>
         (\<forall>i<n. \<forall>j<n. i \<noteq> j \<longrightarrow> \<not> overlap (cell i) (cell j)) \<and>
         (\<forall>i<n. i mod cols < cols \<and> i div cols < rows) \<and>
         (\<forall>c<cols. \<forall>r<rows. n \<le> r * cols + c \<longrightarrow>
            (\<forall>i<n. \<not> (i mod cols = c \<and> i div cols = r))))) \<and>
   gridCols 5 = 3 \<and> gridRows 5 = 2 \<and>
   map (gridCell m0 a a 5) [0, 1, 2, 3, 4] =
     [\<lparr> rx = m0, ry = m0, rw = (a - 40) / 3, rh = (a - 20) / 2 \<rparr>,
      \<lparr> rx = m0 + ((a - 40) / 3 + 20), ry = m0, rw = (a - 40) / 3, rh = (a - 20) / 2 \<rparr>,
      \<lparr> rx = m0 + 2 * ((a - 40) / 3 + 20), ry = m0, rw = (a - 40) / 3, rh = (a - 20) / 2 \<rparr>,
      \<lparr> rx = m0, ry = m0 + ((a - 20) / 2 + 20), rw = (a - 40) / 3, rh = (a - 20) / 2 \<rparr>,
      \<lparr> rx = m0 + ((a - 40) / 3 + 20), ry = m0 + ((a - 20) / 2 + 20),
        rw = (a - 40) / 3, rh = (a - 20) / 2 \<rparr>] \<and>
   (0 < a \<longrightarrow>
      \<lparr> rx = m0 + 2 * ((a - 40) / 3 + 20), ry = m0 + ((a - 20) / 2 + 20),
        rw = (a - 40) / 3, rh = (a - 20) / 2 \<rparr>
      \<notin> set (map (gridCell m0 a a 5) [0, 1, 2, 3, 4]))"
proof (intro conjI impI)
  assume n3: "3 \<le> length images"
  define n where "n = length images"
  define cols where "cols = nat \<lceil>sqrt (real n)\<rceil>"
  define rows where "rows = nat \<lceil>real n / real cols\<rceil>"
  have "0 < n" using n3 unfolding n_def by linarith
  then have "0 < ceil_sqrt n" by (rule ceil_sqrt_pos)
  then have cols_pos: "0 < cols" by (simp only: cols_def ceil_sqrt_nat)
  have page: "createGalleryPage e cfg pg images =
      concat (map (\<lambda>i. let c = gridCell (margin_of cfg) (page_width pg - margin_of cfg * 2)
                                 (page_height pg - margin_of cfg * 2) n i
                        in addImageToPage e cfg (images ! i) (rx c) (ry c) (rw c) (rh c))
                [0..<n])"
  proof -
    have "length images \<noteq> 1" "length images \<noteq> 2" using n3 by simp_all
    then show ?thesis by (simp only: createGalleryPage_def Let_def n_def if_False)
  qed
  have inside: "\<forall>i<n. i mod cols < cols \<and> i div cols < rows"
    using cols_pos row_in_range[of cols _ n] by (simp add: rows_def)
  have empty: "\<forall>c<cols. \<forall>r<rows. n \<le> r * cols + c \<longrightarrow>
      (\<forall>i<n. \<not> (i mod cols = c \<and> i div cols = r))"
  proof (intro allI impI notI)
    fix c r i
    assume "n \<le> r * cols + c" "i < n" "i mod cols = c \<and> i div cols = r"
    then have "i = r * cols + c" by (metis div_mult_mod_eq)
    then show False using \<open>n \<le> r * cols + c\<close> \<open>i < n\<close> by simp
  qed
  show "let n = length images;
          m = margin_of cfg;
          availableWidth = page_width pg - m * 2;
          availableHeight = page_height pg - m * 2;
          cols = nat \<lceil>sqrt (real n)\<rceil>;
          rows = nat \<lceil>real n / real cols\<rceil>;
          cw = (availableWidth - 20 * (real cols - 1)) / real cols;
          ch = (availableHeight - 20 * (real rows - 1)) / real rows;
          cell = (\<lambda>i. \<lparr> rx = m + real (i mod cols) * (cw + 20),
                         ry = m + real (i div cols) * (ch + 20), rw = cw, rh = ch \<rparr>)
      in createGalleryPage e cfg pg images =
           concat (map (\<lambda>i. addImageToPage e cfg (images ! i)
                               (rx (cell i)) (ry (cell i)) (rw (cell i)) (rh (cell i)))
                     [0..<n]) \<and>
         (\<forall>i<n. \<forall>j<n. i \<noteq> j \<longrightarrow> \<not> overlap (cell i) (cell j)) \<and>
         (\<forall>i<n. i mod cols < cols \<and> i div cols < rows) \<and>
         (\<forall>c<cols. \<forall>r<rows. n \<le> r * cols + c \<longrightarrow>
            (\<forall>i<n. \<not> (i mod cols = c \<and> i div cols = r)))"
    unfolding Let_def n_def[symmetric] cols_def[symmetric] rows_def[symmetric]
  proof (intro conjI)
    show "createGalleryPage e cfg pg images =
      concat (map (\<lambda>i. addImageToPage e cfg (images ! i)
           (rx \<lparr>rx = margin_of cfg + real (i mod cols) * ((page_width pg - margin_of cfg * 2 - 20 * (real cols - 1)) / real cols + 20),
                ry = margin_of cfg + real (i div cols) * ((page_height pg - margin_of cfg * 2 - 20 * (real rows - 1)) / real rows + 20),
                rw = (page_width pg - margin_of cfg * 2 - 20 * (real cols - 1)) / real cols,
                rh = (page_height pg - margin_of cfg * 2 - 20 * (real rows - 1)) / real rows\<rparr>)
           (ry \<lparr>rx = margin_of cfg + real (i mod cols) * ((page_width pg - margin_of cfg * 2 - 20 * (real cols - 1)) / real cols + 20),
                ry = margin_of cfg + real (i div cols) * ((page_height pg - margin_of cfg * 2 - 20 * (real rows - 1)) / real rows + 20),
                rw = (page_width pg - margin_of cfg * 2 - 20 * (real cols - 1)) / real cols,
                rh = (page_height pg - margin_of cfg * 2 - 20 * (real rows - 1)) / real rows\<rparr>)
           (rw \<lparr>rx = margin_of cfg + real (i mod cols) * ((page_width pg - margin_of cfg * 2 - 20 * (real cols - 1)) / real cols + 20),
                ry = margin_of cfg + real (i div cols) * ((page_height pg - margin_of cfg * 2 - 20 * (real rows - 1)) / real rows + 20),
                rw = (page_width pg - margin_of cfg * 2 - 20 * (real cols - 1)) / real cols,
                rh = (page_height pg - margin_of cfg * 2 - 20 * (real rows - 1)) / real rows\<rparr>)
           (rh \<lparr>rx = margin_of cfg + real (i mod cols) * ((page_width pg - margin_of cfg * 2 - 20 * (real cols - 1)) / real cols + 20),
                ry = margin_of cfg + real (i div cols) * ((page_height pg - margin_of cfg * 2 - 20 * (real rows - 1)) / real rows + 20),
                rw = (page_width pg - margin_of cfg * 2 - 20 * (real cols - 1)) / real cols,
                rh = (page_height pg - margin_of cfg * 2 - 20 * (real rows - 1)) / real rows\<rparr>))
         [0..<n])"
      unfolding page gridCell_eq Let_def cols_def[symmetric] rows_def[symmetric] by simp
  qed (use inside empty cells_apart[OF cols_pos] in blast)+
next
  show "gridCols 5 = 3" by (simp add: gridCols_def ceil_sqrt_5)
next
  show "gridRows 5 = 2" by (rule gridRows_5)
next
  show "map (gridCell m0 a a 5) [0, 1, 2, 3, 4] =
     [\<lparr> rx = m0, ry = m0, rw = (a - 40) / 3, rh = (a - 20) / 2 \<rparr>,
      \<lparr> rx = m0 + ((a - 40) / 3 + 20), ry = m0, rw = (a - 40) / 3, rh = (a - 20) / 2 \<rparr>,
      \<lparr> rx = m0 + 2 * ((a - 40) / 3 + 20), ry = m0, rw = (a - 40) / 3, rh = (a - 20) / 2 \<rparr>,
      \<lparr> rx = m0, ry = m0 + ((a - 20) / 2 + 20), rw = (a - 40) / 3, rh = (a - 20) / 2 \<rparr>,
      \<lparr> rx = m0 + ((a - 40) / 3 + 20), ry = m0 + ((a - 20) / 2 + 20),
        rw = (a - 40) / 3, rh = (a - 20) / 2 \<rparr>]"
    by (simp add: gridCell_def Let_def gridCols_def gridRows_5 ceil_sqrt_5)
next
  assume "0 < a"
  then show "\<lparr> rx = m0 + 2 * ((a - 40) / 3 + 20), ry = m0 + ((a - 20) / 2 + 20),
        rw = (a - 40) / 3, rh = (a - 20) / 2 \<rparr>
      \<notin> set (map (gridCell m0 a a 5) [0, 1, 2, 3, 4])"
    by (simp add: gridCell_def Let_def gridCols_def gridRows_5 ceil_sqrt_5, argo)
qed


theorem gallery_grid_witness:
  "3 \<le> length sampleImages \<and>
   (let n = length sampleImages;
        m = margin_of sampleConfig;
        availableWidth = page_width samplePage - m * 2;
        availableHeight = page_height samplePage - m * 2;
        cols = nat \<lceil>sqrt (real n)\<rceil>;
        rows = nat \<lceil>real n / real cols\<rceil>;
        cw = (availableWidth - 20 * (real cols - 1)) / real cols;
        ch = (availableHeight - 20 * (real rows - 1)) / real rows;
        cell = (\<lambda>i. \<lparr> rx = m + real (i mod cols) * (cw + 20),
                       ry = m + real (i div cols) * (ch + 20), rw = cw, rh = ch \<rparr>)
    in createGalleryPage sampleEnv sampleConfig samplePage sampleImages =
         concat (map (\<lambda>i. addImageToPage sampleEnv sampleConfig (sampleImages ! i)
                             (rx (cell i)) (ry (cell i)) (rw (cell i)) (rh (cell i)))
                   [0..<n]) \<and>
       \<not> overlap (cell 0) (cell 1) \<and> \<not> overlap (cell 0) (cell 2) \<and>
       \<not> overlap (cell 1) (cell 2))"
proof -
  have h: "3 \<le> length sampleImages" by (simp add: sampleImages_def)
  have n: "length sampleImages = 3" by (simp add: sampleImages_def)
  have less: "(0::nat) < 3" "(1::nat) < 3" "(2::nat) < 3" "(0::nat) \<noteq> 1" "(0::nat) \<noteq> 2"
    "(1::nat) \<noteq> 2" by simp_all
  from gallery_grid [of sampleImages sampleConfig samplePage sampleEnv 0 0] h
  show ?thesis unfolding Let_def n using less by blast
qed

subsection \<open>The image records of a project\<close>

lemma processImageItem_found:
  assumes "namesFile it" and "probe e (path_join e ppath (refName it)) = Some md"
  shows "processImageItem e ppath it =
     Inr [\<lparr> img_name = refName it, img_path = path_join e ppath (refName it),
            img_width = md_width md, img_height = md_height md, img_format = md_format md,
            img_border = refBorder it \<rparr>]"
proof (cases it)
  case (Str s)
  then show ?thesis using assms by (simp add: processImageItem_def js_or_false_def)
next
  case (Obj n f b)
  show ?thesis
  proof (cases n)
    case None
    then obtain s where "f = Some s" using assms(1) Obj by auto
    then show ?thesis using assms Obj None
      by (cases b) (simp_all add: processImageItem_def js_or_opt_def truthy_def js_or_false_def str_of_def)
  next
    case (Some s)
    then show ?thesis using assms Obj
      by (cases b) (simp_all add: processImageItem_def js_or_opt_def truthy_def js_or_false_def)
  qed
qed

lemma processItems_all_found:
  assumes "\<forall>it \<in> set items. namesFile it \<and> probe e (path_join e ppath (refName it)) \<noteq> None"
  shows "\<exists>imgs. processItems e ppath items acc = Inr (acc @ imgs) \<and>
           length imgs = length items \<and>
           map img_name imgs = map refName items \<and>
           map img_border imgs = map refBorder items"
  using assms
proof (induction items arbitrary: acc)
  case Nil
  then show ?case by simp
next
  case (Cons it items)
  from Cons.prems obtain md where md: "probe e (path_join e ppath (refName it)) = Some md"
    and nf: "namesFile it" by auto
  let ?img = "\<lparr> img_name = refName it, img_path = path_join e ppath (refName it),
            img_width = md_width md, img_height = md_height md, img_format = md_format md,
            img_border = refBorder it \<rparr>"
  from Cons.IH[of "acc @ [?img]"] Cons.prems obtain imgs where
    imgs: "processItems e ppath items (acc @ [?img]) = Inr ((acc @ [?img]) @ imgs)"
      "length imgs = length items" "map img_name imgs = map refName items"
      "map img_border imgs = map refBorder items"
    by auto
  have "processItems e ppath (it # items) acc = Inr (acc @ (?img # imgs))"
    using imgs(1) processImageItem_found[OF nf md] by simp
  then show ?case using imgs(2-4) by (intro exI[of _ "?img # imgs"]) simp
qed

lemma processImageItem_probed:
  assumes "processImageItem e ppath it = Inr new" and "img \<in> set new"
  shows "probe e (path_join e ppath (img_name img)) \<noteq> None"
  using assms
  by (auto simp: processImageItem_def Let_def split: imageItem.splits option.splits)

lemma processItems_probed:
  assumes "processItems e ppath items acc = Inr imgs" and "img \<in> set imgs"
  shows "img \<in> set acc \<or> probe e (path_join e ppath (img_name img)) \<noteq> None"
  using assms
proof (induction items arbitrary: acc)
  case Nil
  then show ?case by simp
next
  case (Cons it items)
  from Cons.prems(1) obtain new where new: "processImageItem e ppath it = Inr new"
    and rest: "processItems e ppath items (acc @ new) = Inr imgs"
    by (auto split: sum.splits)
  from Cons.IH[OF rest Cons.prems(2)] processImageItem_probed[OF new]
  show ?case by auto
qed

text \<open>
  C6. When every entry of the images array names a file (the name of an object, when
  present, is not empty, and an object without a name has a file) and the probe of every
  named file succeeds,
  \<^verbatim>\<open>processProjectImages\<close> succeeds with as many records as entries, in the order of
  the entries, doubles included: the record of a bare string has the string as its name
  and no border, the record of an object has the object's name, or its file when it has
  no name, and the object's border flag.
\<close>

theorem images_normalised:
  assumes "p_images proj = Some items"
    and "\<forall>it \<in> set items. namesFile it \<and>
           probe e (path_join e (p_path proj) (refName it)) \<noteq> None"
  shows "\<exists>imgs. processProjectImages e proj = Inr (proj\<lparr> p_processedImages := imgs \<rparr>) \<and>
           length imgs = length items \<and>
           map img_name imgs = map refName items \<and>
           map img_border imgs = map refBorder items"
  using processItems_all_found[OF assms(2), of "[]"] assms(1)
  by (auto simp: processProjectImages_def)

theorem images_normalised_witness:
  "p_images (sampleProject\<lparr> p_images := Some mixedItems \<rparr>) = Some mixedItems \<and>
   list_all (\<lambda>it. namesFile it \<and>
       probe sampleEnv (path_join sampleEnv (p_path (sampleProject\<lparr> p_images := Some mixedItems \<rparr>))
         (refName it)) \<noteq> None) mixedItems \<and>
   (\<exists>imgs. processProjectImages sampleEnv (sampleProject\<lparr> p_images := Some mixedItems \<rparr>)
              = Inr (sampleProject\<lparr> p_images := Some mixedItems, p_processedImages := imgs \<rparr>) \<and>
           map img_name imgs = [''a.jpg'', ''b.png'', ''PHOTO.JPG'', ''b.png''] \<and>
           map img_border imgs = [True, False, False, False])"
proof -
  have h1: "p_images (sampleProject\<lparr> p_images := Some mixedItems \<rparr>) = Some mixedItems"
    by simp
  have h2: "\<forall>it \<in> set mixedItems. namesFile it \<and>
       probe sampleEnv (path_join sampleEnv (p_path (sampleProject\<lparr> p_images := Some mixedItems \<rparr>))
         (refName it)) \<noteq> None"
    by (simp add: mixedItems_def sampleEnv_def sampleProject_def str_of_def)
  have h3: "list_all (\<lambda>it. namesFile it \<and>
       probe sampleEnv (path_join sampleEnv (p_path (sampleProject\<lparr> p_images := Some mixedItems \<rparr>))
         (refName it)) \<noteq> None) mixedItems"
    using h2 by (simp only: list_all_iff)
  have names: "map refName mixedItems = [''a.jpg'', ''b.png'', ''PHOTO.JPG'', ''b.png'']"
    and borders: "map refBorder mixedItems = [True, False, False, False]"
    by (simp_all add: mixedItems_def str_of_def)
  from images_normalised[OF h1 h2, unfolded names borders] obtain imgs where
    a: "processProjectImages sampleEnv (sampleProject\<lparr> p_images := Some mixedItems \<rparr>)
       = Inr (sampleProject\<lparr> p_images := Some mixedItems, p_processedImages := imgs \<rparr>)"
    and b: "map img_name imgs = [''a.jpg'', ''b.png'', ''PHOTO.JPG'', ''b.png'']"
    and c: "map img_border imgs = [True, False, False, False]"
    by (elim exE conjE)
  have "\<exists>imgs. processProjectImages sampleEnv (sampleProject\<lparr> p_images := Some mixedItems \<rparr>)
              = Inr (sampleProject\<lparr> p_images := Some mixedItems, p_processedImages := imgs \<rparr>) \<and>
           map img_name imgs = [''a.jpg'', ''b.png'', ''PHOTO.JPG'', ''b.png''] \<and>
           map img_border imgs = [True, False, False, False]"
    using a b c by (intro exI conjI)
  with h1 h3 show ?thesis by (intro conjI)
qed

text \<open>
  C7. A page of type \<^verbatim>\<open>full\<close> whose content is empty, or whose first token is the name
  of no record of the project, gives no command at all, and the loop over the layout adds
  only the page break. This is the case of a token that names a file whose probe failed
  when the project was loaded: the file has no record. The result is a value, the empty
  list: there is no error on this path.
\<close>

theorem full_page_unresolved:
  "(pg_type lp = ''full'' \<and>
      (pg_content lp = [] \<or> hd (pg_content lp) \<notin> img_name ` set (p_processedImages proj))
      \<longrightarrow> createProjectPage e cfg pg proj lp = [] \<and>
          layoutPages e cfg pg proj [lp] = [AddPage]) \<and>
   (processProjectImages e proj0 = Inr proj \<and> pg_type lp = ''full'' \<and>
      pg_content lp = tok # rest \<and> probe e (path_join e (p_path proj0) tok) = None
      \<longrightarrow> createProjectPage e cfg pg proj lp = [] \<and>
          layoutPages e cfg pg proj [lp] = [AddPage])"
proof (intro conjI impI)
  assume a: "pg_type lp = ''full'' \<and>
      (pg_content lp = [] \<or> hd (pg_content lp) \<notin> img_name ` set (p_processedImages proj))"
  then have "(case pg_content lp of [] \<Rightarrow> None | name # _ \<Rightarrow> findImage proj name) = None"
    by (auto simp: findImage_def find_None_iff split: list.splits)
  then show "createProjectPage e cfg pg proj lp = []" using a
    by (simp add: createProjectPage_def)
  then show "layoutPages e cfg pg proj [lp] = [AddPage]" by simp
next
  assume b: "processProjectImages e proj0 = Inr proj \<and> pg_type lp = ''full'' \<and>
      pg_content lp = tok # rest \<and> probe e (path_join e (p_path proj0) tok) = None"
  then obtain imgs where imgs: "processItems e (p_path proj0)
        (case p_images proj0 of None \<Rightarrow> [] | Some is \<Rightarrow> is) [] = Inr imgs"
      and proj: "proj = proj0\<lparr> p_processedImages := imgs \<rparr>"
    by (auto simp: processProjectImages_def split: sum.splits)
  have "\<forall>img \<in> set imgs. img_name img \<noteq> tok"
  proof
    fix img assume "img \<in> set imgs"
    from processItems_probed[OF imgs this]
    have "probe e (path_join e (p_path proj0) (img_name img)) \<noteq> None" by simp
    then show "img_name img \<noteq> tok" using b by auto
  qed
  then have "findImage proj tok = None"
    by (auto simp: findImage_def find_None_iff proj)
  then show "createProjectPage e cfg pg proj lp = []" using b
    by (simp add: createProjectPage_def)
  then show "layoutPages e cfg pg proj [lp] = [AddPage]" by simp
qed

lemma sample_loaded:
  "processProjectImages sampleEnv sampleProject = Inr sampleLoaded"
  by (simp add: processProjectImages_def sampleProject_def processImageItem_def sampleEnv_def
      sampleImages_def sampleLoaded_def js_or_opt_def truthy_def js_or_false_def)

theorem full_page_unresolved_witness:
  "processProjectImages sampleEnv sampleProject = Inr sampleLoaded \<and>
   pg_type fullMissing = ''full'' \<and> pg_content fullMissing = ''missing.jpg'' # [] \<and>
   probe sampleEnv (path_join sampleEnv (p_path sampleProject) ''missing.jpg'') = None \<and>
   createProjectPage sampleEnv sampleConfig samplePage sampleLoaded fullMissing = [] \<and>
   layoutPages sampleEnv sampleConfig samplePage sampleLoaded [fullMissing] = [AddPage]"
proof -
  have h: "processProjectImages sampleEnv sampleProject = Inr sampleLoaded \<and>
      pg_type fullMissing = ''full'' \<and> pg_content fullMissing = ''missing.jpg'' # [] \<and>
      probe sampleEnv (path_join sampleEnv (p_path sampleProject) ''missing.jpg'') = None"
    by (simp add: sample_loaded) (simp add: fullMissing_def sampleEnv_def sampleProject_def)
  note r = full_page_unresolved[of fullMissing sampleLoaded sampleEnv sampleConfig samplePage
      sampleProject "''missing.jpg''" "[]", THEN conjunct2, THEN mp, OF h]
  from h r show ?thesis by (elim conjE) (intro conjI; assumption)
qed

subsection \<open>Borders\<close>

lemma shouldDrawBorder_iff:
  "shouldDrawBorder cfg img = (img_border img \<or> globalBorder cfg)"
proof (cases "cfg_imageBorder cfg")
  case None
  then show ?thesis by (simp add: shouldDrawBorder_def globalBorder_def)
next
  case (Some bc)
  then show ?thesis
    by (cases "ib_enabled bc") (simp_all add: shouldDrawBorder_def globalBorder_def js_or_false_def)
qed

lemma border_with_image:
  assumes "Image src a b c d \<in> set (addImageToPage e cfg img x y w h)"
  shows "(Rect a b c d \<in> set (addImageToPage e cfg img x y w h)) = shouldDrawBorder cfg img"
    and "(Stroke \<in> set (addImageToPage e cfg img x y w h)) = shouldDrawBorder cfg img"
  using assms
  by (auto simp: addImageToPage_def Let_def borderCmds_def split: option.splits if_splits)

lemma processImageItem_border:
  assumes "processImageItem e ppath it = Inr [img]"
  shows "img_border img = refBorder it"
proof (cases it)
  case (Str s)
  then show ?thesis using assms
    by (auto simp: processImageItem_def Let_def js_or_false_def split: option.splits)
next
  case (Obj n f b)
  then show ?thesis using assms
    by (cases b) (auto simp: processImageItem_def Let_def js_or_false_def split: option.splits)
qed

text \<open>
  C5. Whenever \<^verbatim>\<open>addImageToPage\<close> draws an image, it strokes a rectangle on the
  image's placement exactly when the image's own border flag is set or the global border
  policy is enabled. The flag of a record is the border flag of its reference (false for
  a bare string or a missing field). So with the global policy off the border is drawn
  for the references that carry \<^verbatim>\<open>border: true\<close> and for no other, and with the global
  policy on it is drawn for every image, whatever its reference says.
\<close>

theorem border_rule:
  "(Image src a b c d \<in> set (addImageToPage e cfg img x y w h) \<longrightarrow>
      (Rect a b c d \<in> set (addImageToPage e cfg img x y w h))
         = (img_border img \<or> globalBorder cfg) \<and>
      (Stroke \<in> set (addImageToPage e cfg img x y w h))
         = (img_border img \<or> globalBorder cfg)) \<and>
   (processImageItem e ppath it = Inr [img] \<longrightarrow> img_border img = refBorder it) \<and>
   (\<not> globalBorder cfg \<and> processImageItem e ppath it = Inr [img] \<and>
      Image src a b c d \<in> set (addImageToPage e cfg img x y w h) \<longrightarrow>
      (Rect a b c d \<in> set (addImageToPage e cfg img x y w h)) = refBorder it) \<and>
   (globalBorder cfg \<and> Image src a b c d \<in> set (addImageToPage e cfg img x y w h) \<longrightarrow>
      Rect a b c d \<in> set (addImageToPage e cfg img x y w h))"
  using border_with_image[of src a b c d e cfg img x y w h]
    processImageItem_border[of e ppath it img] shouldDrawBorder_iff[of cfg img]
  by (simp only: simp_thms) blast

lemma sample_a_page:
  "addImageToPage sampleEnv sampleConfig (sampleImages ! 0) 30 30 782 535 =
     [Image (File ''work/a.jpg'') (193 / 3) 30 (2140 / 3) 535,
      Save, LineWidth (1 / 2), StrokeColor ''#CCCCCC'',
      Rect (193 / 3) 30 (2140 / 3) 535, Stroke, Restore]"
  by (simp add: addImageToPage_def placement_def imageSourceFor_def shouldDrawBorder_def
      borderCmds_def sampleImages_def sampleConfig_def sampleEnv_def dpi_of_def js_or_num_def
      js_or_str_def js_round_def js_or_false_def Let_def)

lemma sample_b_page:
  "addImageToPage sampleEnv sampleConfig (sampleImages ! 1) 30 30 782 535 =
     [Image (File ''work/b.png'') (1763 / 8) 30 (1605 / 4) 535]"
  by (simp add: addImageToPage_def placement_def imageSourceFor_def shouldDrawBorder_def
      borderCmds_def sampleImages_def sampleConfig_def sampleEnv_def dpi_of_def js_or_num_def
      js_or_str_def js_round_def js_or_false_def Let_def)

lemma sample_items:
  "processImageItem sampleEnv ''work'' (Obj (Some ''a.jpg'') None (Some True)) = Inr [sampleImages ! 0]"
  "processImageItem sampleEnv ''work'' (Str ''b.png'') = Inr [sampleImages ! 1]"
  by (simp_all add: processImageItem_def sampleEnv_def sampleImages_def js_or_opt_def truthy_def
      js_or_false_def)

theorem border_rule_witness:
  "\<not> globalBorder sampleConfig \<and>
   processImageItem sampleEnv ''work'' (Obj (Some ''a.jpg'') None (Some True)) = Inr [sampleImages ! 0] \<and>
   Image (File ''work/a.jpg'') (193 / 3) 30 (2140 / 3) 535
     \<in> set (addImageToPage sampleEnv sampleConfig (sampleImages ! 0) 30 30 782 535) \<and>
   (Rect (193 / 3) 30 (2140 / 3) 535
     \<in> set (addImageToPage sampleEnv sampleConfig (sampleImages ! 0) 30 30 782 535)) = True \<and>
   processImageItem sampleEnv ''work'' (Str ''b.png'') = Inr [sampleImages ! 1] \<and>
   Image (File ''work/b.png'') (1763 / 8) 30 (1605 / 4) 535
     \<in> set (addImageToPage sampleEnv sampleConfig (sampleImages ! 1) 30 30 782 535) \<and>
   (Rect (1763 / 8) 30 (1605 / 4) 535
     \<in> set (addImageToPage sampleEnv sampleConfig (sampleImages ! 1) 30 30 782 535)) = False"
proof -
  have g: "\<not> globalBorder sampleConfig" by (simp add: globalBorder_def sampleConfig_def)
  have ia: "Image (File ''work/a.jpg'') (193 / 3) 30 (2140 / 3) 535
     \<in> set (addImageToPage sampleEnv sampleConfig (sampleImages ! 0) 30 30 782 535)"
    by (simp only: sample_a_page list.set_intros)
  have ib: "Image (File ''work/b.png'') (1763 / 8) 30 (1605 / 4) 535
     \<in> set (addImageToPage sampleEnv sampleConfig (sampleImages ! 1) 30 30 782 535)"
    by (simp only: sample_b_page list.set_intros)
  have ra: "(Rect (193 / 3) 30 (2140 / 3) 535
     \<in> set (addImageToPage sampleEnv sampleConfig (sampleImages ! 0) 30 30 782 535))
     = refBorder (Obj (Some ''a.jpg'') None (Some True))"
    by (rule border_rule[THEN conjunct2, THEN conjunct2, THEN conjunct1, THEN mp])
      (rule conjI[OF g conjI[OF sample_items(1) ia]])
  have rb: "(Rect (1763 / 8) 30 (1605 / 4) 535
     \<in> set (addImageToPage sampleEnv sampleConfig (sampleImages ! 1) 30 30 782 535))
     = refBorder (Str ''b.png'')"
    by (rule border_rule[THEN conjunct2, THEN conjunct2, THEN conjunct1, THEN mp])
      (rule conjI[OF g conjI[OF sample_items(2) ib]])
  have "refBorder (Obj (Some ''a.jpg'') None (Some True)) = True" "refBorder (Str ''b.png'') = False"
    by simp_all
  with ra rb g ia ib sample_items show ?thesis by (simp only: simp_thms)
qed


subsection \<open>Numeric settings\<close>

text \<open>
  C9, as the code has it. A margin or a resolution that is missing or zero is replaced by
  the default, 30 for the margin and 300 for the resolution, in the options of the
  document and in the rendering of the pages; any other value, a negative one included, is
  used as it is. (When the configuration file itself is missing, the fallback object
  gives the margin 50.)
\<close>

theorem numeric_defaults:
  "((cfg_margin cfg = None \<or> cfg_margin cfg = Some 0) \<longrightarrow>
      margin_of cfg = 30 \<and>
      do_top (fst (createPDF e cfg projects)) = 30 \<and>
      do_bottom (fst (createPDF e cfg projects)) = 30 \<and>
      do_left (fst (createPDF e cfg projects)) = 30 \<and>
      do_right (fst (createPDF e cfg projects)) = 30 \<and>
      createFullPage e cfg pg img =
        addImageToPage e cfg img 30 30 (page_width pg - 30 * 2) (page_height pg - 30 * 2)) \<and>
   ((cfg_dpi cfg = None \<or> cfg_dpi cfg = Some 0) \<longrightarrow>
      dpi_of cfg = 300 \<and>
      imageSourceFor e cfg img r = imageSourceFor e (cfg\<lparr> cfg_dpi := Some 300 \<rparr>) img r) \<and>
   (cfg_margin cfg = Some v \<and> v \<noteq> 0 \<longrightarrow>
      margin_of cfg = v \<and> do_top (fst (createPDF e cfg projects)) = v \<and>
      createFullPage e cfg pg img =
        addImageToPage e cfg img v v (page_width pg - v * 2) (page_height pg - v * 2)) \<and>
   (cfg_dpi cfg = Some v \<and> v \<noteq> 0 \<longrightarrow> dpi_of cfg = v) \<and>
   margin_of (loadConfig None) = 50 \<and> dpi_of (loadConfig None) = 300"
proof -
  have m0: "cfg_margin cfg = None \<or> cfg_margin cfg = Some 0 \<Longrightarrow> margin_of cfg = 30"
    by (auto simp: margin_of_def js_or_num_def)
  have mv: "cfg_margin cfg = Some v \<and> v \<noteq> 0 \<Longrightarrow> margin_of cfg = v"
    by (auto simp: margin_of_def js_or_num_def)
  have d0: "cfg_dpi cfg = None \<or> cfg_dpi cfg = Some 0 \<Longrightarrow> dpi_of cfg = 300"
    by (auto simp: dpi_of_def js_or_num_def)
  have dv: "cfg_dpi cfg = Some v \<and> v \<noteq> 0 \<Longrightarrow> dpi_of cfg = v"
    by (auto simp: dpi_of_def js_or_num_def)
  have top: "do_top (fst (createPDF e cfg projects)) = margin_of cfg"
    "do_bottom (fst (createPDF e cfg projects)) = margin_of cfg"
    "do_left (fst (createPDF e cfg projects)) = margin_of cfg"
    "do_right (fst (createPDF e cfg projects)) = margin_of cfg"
    by (simp_all add: createPDF_def docOptionsOf_def margin_of_def Let_def)
  have full: "createFullPage e cfg pg img =
      addImageToPage e cfg img (margin_of cfg) (margin_of cfg)
        (page_width pg - margin_of cfg * 2) (page_height pg - margin_of cfg * 2)"
    by (simp add: createFullPage_def Let_def)
  have full30: "margin_of cfg = 30 \<Longrightarrow> createFullPage e cfg pg img =
      addImageToPage e cfg img 30 30 (page_width pg - 30 * 2) (page_height pg - 30 * 2)"
    by (simp only: full)
  have fullv: "margin_of cfg = v \<Longrightarrow> createFullPage e cfg pg img =
      addImageToPage e cfg img v v (page_width pg - v * 2) (page_height pg - v * 2)"
    by (simp only: full)
  have src: "dpi_of cfg = 300 \<Longrightarrow>
      imageSourceFor e cfg img r = imageSourceFor e (cfg\<lparr> cfg_dpi := Some 300 \<rparr>) img r"
    by (simp add: imageSourceFor_def dpi_of_def js_or_num_def)
  have fb: "margin_of (loadConfig None) = 50" "dpi_of (loadConfig None) = 300"
    by (simp_all add: loadConfig_def margin_of_def dpi_of_def js_or_num_def)
  show ?thesis
    using m0 mv d0 dv full30 fullv src fb unfolding top by blast
qed

theorem numeric_defaults_witness:
  "(cfg_margin (sampleConfig\<lparr> cfg_margin := Some 0 \<rparr>) = None \<or>
    cfg_margin (sampleConfig\<lparr> cfg_margin := Some 0 \<rparr>) = Some 0) \<and>
   do_top (fst (createPDF sampleEnv (sampleConfig\<lparr> cfg_margin := Some 0 \<rparr>) [])) = 30 \<and>
   (cfg_dpi (loadConfig None) = None \<or> cfg_dpi (loadConfig None) = Some 0) \<and>
   dpi_of (loadConfig None) = 300 \<and>
   cfg_margin negativeConfig = Some (- 5) \<and> (- 5 :: real) \<noteq> 0 \<and>
   margin_of negativeConfig = - 5"
proof -
  have h1: "cfg_margin (sampleConfig\<lparr> cfg_margin := Some 0 \<rparr>) = None \<or>
    cfg_margin (sampleConfig\<lparr> cfg_margin := Some 0 \<rparr>) = Some 0" by simp
  have h2: "cfg_dpi (loadConfig None) = None \<or> cfg_dpi (loadConfig None) = Some 0"
    by (simp add: loadConfig_def)
  have h3: "cfg_margin negativeConfig = Some (- 5) \<and> (- 5 :: real) \<noteq> 0"
    by (simp add: negativeConfig_def)
  note a = numeric_defaults[where cfg = "sampleConfig\<lparr> cfg_margin := Some 0 \<rparr>"
      and e = sampleEnv and projects = "[]",
      THEN conjunct1, THEN mp, OF h1, THEN conjunct2, THEN conjunct1]
  note b = numeric_defaults[where cfg = "loadConfig None",
      THEN conjunct2, THEN conjunct1, THEN mp, OF h2, THEN conjunct1]
  note c = numeric_defaults[where cfg = negativeConfig and v = "- 5",
      THEN conjunct2, THEN conjunct2, THEN conjunct1, THEN mp, OF h3, THEN conjunct1]
  from h1 a h2 b h3 c show ?thesis by (simp only: simp_thms)
qed

text \<open>
  The claim C9 as stated fails for a negative value: a margin of -5 and a resolution of
  -72 are used as they are.
\<close>

theorem negative_margin_used:
  "cfg_margin negativeConfig = Some (- 5) \<and>
   do_top (fst (createPDF sampleEnv negativeConfig [])) = - 5 \<and>
   do_top (fst (createPDF sampleEnv negativeConfig [])) \<noteq> 30 \<and>
   createFullPage sampleEnv negativeConfig samplePage (sampleImages ! 0) =
     addImageToPage sampleEnv negativeConfig (sampleImages ! 0) (- 5) (- 5) 852 605 \<and>
   cfg_dpi negativeConfig = Some (- 72) \<and> dpi_of negativeConfig = - 72 \<and>
   dpi_of negativeConfig \<noteq> 300"
  by (simp add: negativeConfig_def createPDF_def docOptionsOf_def js_or_num_def Let_def
      createFullPage_def margin_of_def dpi_of_def samplePage_def)

subsection \<open>Image tokens\<close>

lemma endsWith_iff: "endsWith s suf = (\<exists>p. s = p @ suf)"
proof
  assume "endsWith s suf"
  then have "s = take (length s - length suf) s @ suf"
    by (metis append_take_drop_id endsWith_def)
  then show "\<exists>p. s = p @ suf" ..
next
  assume "\<exists>p. s = p @ suf"
  then show "endsWith s suf" by (auto simp: endsWith_def)
qed

lemma endsWith_ci_iff:
  "endsWith_ci s suf = (\<exists>p t. s = p @ t \<and> map canonicalize t = map canonicalize suf)"
proof
  assume a: "endsWith_ci s suf"
  let ?t = "drop (length s - length suf) s"
  have "s = take (length s - length suf) s @ ?t" by simp
  moreover have "map canonicalize ?t = map canonicalize suf" using a by (simp add: endsWith_ci_def)
  ultimately show "\<exists>p t. s = p @ t \<and> map canonicalize t = map canonicalize suf" by blast
next
  assume "\<exists>p t. s = p @ t \<and> map canonicalize t = map canonicalize suf"
  then obtain p t where s: "s = p @ t" and m: "map canonicalize t = map canonicalize suf"
    by blast
  from m have "length t = length suf" by (metis length_map)
  then show "endsWith_ci s suf" using s m by (simp add: endsWith_ci_def)
qed

lemma endsWith_imp_ci: "endsWith s suf \<Longrightarrow> endsWith_ci s suf"
  by (simp add: endsWith_def endsWith_ci_def)

lemma canonical_suffixes:
  "map canonicalize ''.jpg'' = ''.JPG''" "map canonicalize ''.jpeg'' = ''.JPEG''"
  "map canonicalize ''.png'' = ''.PNG''"
  by (simp_all add: canonicalize_def)

lemma upper_gallery_empty:
  "createProjectPage sampleEnv sampleConfig samplePage sampleLoaded upperGallery = []"
  by (simp add: createProjectPage_def upperGallery_def galleryImages_def galleryFilter_def
      endsWith_def createGalleryPage_def List.map_filter_simps Let_def)

lemma upper_info_landscape:
  "createProjectPage sampleEnv sampleConfig samplePage sampleLoaded upperInfo =
     [FontSize 12, Font ''Helvetica'', FontSize 24, Font ''Helvetica-Bold'',
      Text ''Work'' 30 (2483 / 10) (Some (3339 / 10)) None, FontSize 12, Font ''Helvetica'',
      Text ''A description.'' 30 (2971 / 10) (Some (3339 / 10)) None,
      Image (File ''work/PHOTO.JPG'') (4039 / 10) (2497 / 15) (4081 / 10) (4081 / 15)]"
  by code_simp

lemma upper_info_portrait:
  "createProjectPage sampleEnv sampleConfig squarePage sampleLoaded upperInfo =
     [FontSize 24, Font ''Helvetica-Bold'', Text ''Work'' 30 50 None None,
      FontSize 12, Font ''Helvetica'', Text ''A description.'' 30 (494 / 5) (Some 600) None,
      Image (File ''work/PHOTO.JPG'') 132 (666 / 5) 396 264]"
  by code_simp


text \<open>
  C10. The filter of a gallery page keeps a token exactly when it ends with \<^verbatim>\<open>.jpg\<close>,
  \<^verbatim>\<open>.png\<close> or \<^verbatim>\<open>.jpeg\<close> written in lower case. The test of the info pages accepts a
  token exactly when it ends with one of the three extensions in any mix of cases (its
  last characters, put in upper case, are \<^verbatim>\<open>.JPG\<close>, \<^verbatim>\<open>.JPEG\<close> or \<^verbatim>\<open>.PNG\<close>), so it
  accepts whatever the gallery filter keeps. The token \<^verbatim>\<open>PHOTO.JPG\<close> is an image for
  an info page, in one column and in two, and its image is drawn there, while a gallery
  page that names it draws nothing.
\<close>

theorem image_token_filters:
  "galleryFilter tok = (\<exists>p. tok = p @ ''.jpg'' \<or> tok = p @ ''.png'' \<or> tok = p @ ''.jpeg'') \<and>
   matchesImage tok =
     (\<exists>p s. tok = p @ s \<and>
        (map canonicalize s = ''.JPG'' \<or> map canonicalize s = ''.JPEG'' \<or>
         map canonicalize s = ''.PNG'')) \<and>
   (galleryFilter tok \<longrightarrow> matchesImage tok) \<and>
   matchesImage ''PHOTO.JPG'' \<and> \<not> galleryFilter ''PHOTO.JPG'' \<and>
   matchesImage ''scan.Jpeg'' \<and> \<not> galleryFilter ''scan.Jpeg'' \<and>
   matchesImage ''a.png'' \<and> galleryFilter ''a.png'' \<and>
   \<not> matchesImage ''a.gif'' \<and> \<not> galleryFilter ''a.gif'' \<and>
   galleryImages sampleLoaded upperGallery = [] \<and>
   createProjectPage sampleEnv sampleConfig samplePage sampleLoaded upperGallery = [] \<and>
   Image (File ''work/PHOTO.JPG'') (4039 / 10) (2497 / 15) (4081 / 10) (4081 / 15)
     \<in> set (createProjectPage sampleEnv sampleConfig samplePage sampleLoaded upperInfo) \<and>
   Image (File ''work/PHOTO.JPG'') 132 (666 / 5) 396 264
     \<in> set (createProjectPage sampleEnv sampleConfig squarePage sampleLoaded upperInfo)"
proof -
  have g: "galleryFilter tok = (\<exists>p. tok = p @ ''.jpg'' \<or> tok = p @ ''.png'' \<or> tok = p @ ''.jpeg'')"
    by (simp only: galleryFilter_def endsWith_iff ex_disj_distrib)
  have m: "matchesImage tok =
     (\<exists>p s. tok = p @ s \<and>
        (map canonicalize s = ''.JPG'' \<or> map canonicalize s = ''.JPEG'' \<or>
         map canonicalize s = ''.PNG''))"
    by (simp only: matchesImage_def endsWith_ci_iff canonical_suffixes ex_disj_distrib
        conj_disj_distribL)
  have gm: "galleryFilter tok \<longrightarrow> matchesImage tok"
  proof
    assume "galleryFilter tok"
    then have "endsWith tok ''.jpg'' \<or> endsWith tok ''.png'' \<or> endsWith tok ''.jpeg''"
      by (simp only: galleryFilter_def)
    then show "matchesImage tok"
      by (elim disjE) (simp_all only: matchesImage_def endsWith_imp_ci simp_thms)
  qed
  have ex: "matchesImage ''PHOTO.JPG''" "\<not> galleryFilter ''PHOTO.JPG''"
    "matchesImage ''scan.Jpeg''" "\<not> galleryFilter ''scan.Jpeg''"
    "matchesImage ''a.png''" "galleryFilter ''a.png''"
    "\<not> matchesImage ''a.gif''" "\<not> galleryFilter ''a.gif''"
    by (simp_all add: matchesImage_def endsWith_ci_def canonicalize_def galleryFilter_def
        endsWith_def)
  have gi: "galleryImages sampleLoaded upperGallery = []"
    by (simp add: upperGallery_def galleryImages_def galleryFilter_def endsWith_def
        List.map_filter_simps)
  have i1: "Image (File ''work/PHOTO.JPG'') (4039 / 10) (2497 / 15) (4081 / 10) (4081 / 15)
     \<in> set (createProjectPage sampleEnv sampleConfig samplePage sampleLoaded upperInfo)"
    unfolding upper_info_landscape by simp
  have i2: "Image (File ''work/PHOTO.JPG'') 132 (666 / 5) 396 264
     \<in> set (createProjectPage sampleEnv sampleConfig squarePage sampleLoaded upperInfo)"
    unfolding upper_info_portrait by simp
  show ?thesis
    by (intro conjI g m gm ex gi upper_gallery_empty i1 i2)
qed

theorem image_token_filters_witness:
  "galleryFilter ''a.jpg'' \<and> matchesImage ''a.jpg''"
proof -
  have h: "galleryFilter ''a.jpg''" by (simp add: galleryFilter_def endsWith_def)
  from image_token_filters[where tok = "''a.jpg''", THEN conjunct2, THEN conjunct2,
      THEN conjunct1, THEN mp, OF h] h
  show ?thesis by (rule conjI[rotated])
qed

subsection \<open>The pages of a project\<close>

lemma layoutPages_concat:
  "layoutPages e cfg pg proj pages =
     concat (map (\<lambda>lp. createProjectPage e cfg pg proj lp @ [AddPage]) pages)"
  by (induction pages) simp_all

lemma separated_Cons:
  "separated (p # ps) = p @ (if ps = [] then [] else [AddPage] @ separated ps)"
  by (cases ps) simp_all

lemma pairs_Nil_iff: "pairs xs = [] \<longleftrightarrow> xs = []"
  by (induction xs rule: pairs.induct) simp_all

lemma pairs_drop:
  assumes "i < length xs"
  shows "pairs (drop i xs) = take 2 (drop i xs) # pairs (drop (i + 2) xs)"
proof -
  have d: "drop (i + 2) xs = drop 2 (drop i xs)" by (simp add: add.commute)
  obtain a rest where ar: "drop i xs = a # rest"
    using assms by (cases "drop i xs") simp_all
  show ?thesis unfolding d ar by (cases rest) simp_all
qed

lemma galleryLoop_pairs:
  "galleryLoop e cfg pg images i =
     separated (map (createGalleryPage e cfg pg) (pairs (drop i images)))"
proof (induction e cfg pg images i rule: galleryLoop.induct)
  case (1 e cfg pg images i)
  show ?case
  proof (cases "i < length images")
    case False
    then show ?thesis by (subst galleryLoop.simps) simp
  next
    case True
    have more: "(pairs (drop (i + 2) images) = []) = (\<not> i + 2 < length images)"
      by (simp add: pairs_Nil_iff not_less)
    have "galleryLoop e cfg pg images i =
        createGalleryPage e cfg pg (take 2 (drop i images)) @
        (if i + 2 < length images then [AddPage] else []) @
        galleryLoop e cfg pg images (i + 2)"
      using True by (subst galleryLoop.simps) (simp add: Let_def)
    also have "galleryLoop e cfg pg images (i + 2) =
        separated (map (createGalleryPage e cfg pg) (pairs (drop (i + 2) images)))"
      using "1.IH"[OF True refl] .
    finally show ?thesis
      unfolding pairs_drop[OF True] list.map separated_Cons
      using more by (cases "i + 2 < length images") simp_all
  qed
qed

lemma concat_pairs: "concat (pairs xs) = xs"
  by (induction xs rule: pairs.induct) simp_all

lemma pairs_sizes: "p \<in> set (pairs xs) \<Longrightarrow> length p = 1 \<or> length p = 2"
  by (induction xs rule: pairs.induct) auto

lemma pairs_full: "Suc i < length (pairs xs) \<Longrightarrow> length (pairs xs ! i) = 2"
proof (induction xs arbitrary: i rule: pairs.induct)
  case (3 a b rest)
  then show ?case by (cases i) simp_all
qed simp_all

lemma pairs_last_odd: "odd (length xs) \<Longrightarrow> length (last (pairs xs)) = 1"
proof (induction xs rule: pairs.induct)
  case (3 a b rest)
  then have "odd (length rest)" by simp
  then have "rest \<noteq> []" by auto
  then show ?case using 3 by (simp add: pairs_Nil_iff)
qed simp_all

lemma pairs_count: "length (pairs xs) = (length xs + 1) div 2"
  by (induction xs rule: pairs.induct) simp_all


text \<open>
  C8. With an explicit layout the commands of a project are, for each page of the layout
  in turn, the commands of the page followed by a page break, the last page included.
  Without one (no layout, or a layout without pages) they are the default info page, a
  page break, and the gallery pages of the images taken two by two in their order, with a
  page break between two gallery pages and none after the last. The pages of two are
  \<open>(n + 1) div 2\<close> in number, their concatenation is the list of images, all of them
  hold two images except the last one, which holds one when \<open>n\<close> is odd.
\<close>

theorem project_page_breaks:
  "(p_layout proj = Some lo \<and> lo_pages lo = Some pages \<longrightarrow>
      createProjectPages e cfg pg proj =
        concat (map (\<lambda>lp. createProjectPage e cfg pg proj lp @ [AddPage]) pages)) \<and>
   (p_layout proj = None \<or> (\<exists>lo. p_layout proj = Some lo \<and> lo_pages lo = None) \<longrightarrow>
      createProjectPages e cfg pg proj =
        createInfoPage e cfg pg proj @ [AddPage] @
        separated (map (createGalleryPage e cfg pg) (pairs (p_processedImages proj)))) \<and>
   concat (pairs xs) = xs \<and>
   length (pairs xs) = (length xs + 1) div 2 \<and>
   (\<forall>p \<in> set (pairs xs). length p = 1 \<or> length p = 2) \<and>
   (\<forall>i. Suc i < length (pairs xs) \<longrightarrow> length (pairs xs ! i) = 2) \<and>
   (odd (length xs) \<longrightarrow> length (last (pairs xs)) = 1) \<and>
   (even (length xs) \<and> xs \<noteq> [] \<longrightarrow> length (last (pairs xs)) = 2)"
proof (intro conjI impI allI ballI)
  assume "p_layout proj = Some lo \<and> lo_pages lo = Some pages"
  then show "createProjectPages e cfg pg proj =
      concat (map (\<lambda>lp. createProjectPage e cfg pg proj lp @ [AddPage]) pages)"
    by (simp add: createProjectPages_def layoutPages_concat)
next
  assume "p_layout proj = None \<or> (\<exists>lo. p_layout proj = Some lo \<and> lo_pages lo = None)"
  then have "(case p_layout proj of None \<Rightarrow> None | Some lo \<Rightarrow> lo_pages lo) = None"
    by (cases "p_layout proj") auto
  then show "createProjectPages e cfg pg proj =
      createInfoPage e cfg pg proj @ [AddPage] @
      separated (map (createGalleryPage e cfg pg) (pairs (p_processedImages proj)))"
    by (simp add: createProjectPages_def createDefaultProjectLayout_def galleryLoop_pairs)
next
  show "concat (pairs xs) = xs" by (rule concat_pairs)
next
  show "length (pairs xs) = (length xs + 1) div 2" by (rule pairs_count)
next
  fix p assume "p \<in> set (pairs xs)"
  then show "length p = 1 \<or> length p = 2" by (rule pairs_sizes)
next
  fix i assume "Suc i < length (pairs xs)"
  then show "length (pairs xs ! i) = 2" by (rule pairs_full)
next
  assume "odd (length xs)"
  then show "length (last (pairs xs)) = 1" by (rule pairs_last_odd)
next
  assume "even (length xs) \<and> xs \<noteq> []"
  then show "length (last (pairs xs)) = 2"
    by (induction xs rule: pairs.induct) (auto simp: pairs_Nil_iff)
qed

lemma full_missing_layout:
  "createProjectPage sampleEnv sampleConfig samplePage sampleLayoutProject fullMissing = []"
  by code_simp

theorem project_page_breaks_witness:
  "p_layout sampleLayoutProject = Some \<lparr> lo_pages = Some [fullMissing, fullMissing] \<rparr> \<and>
   lo_pages \<lparr> lo_pages = Some [fullMissing, fullMissing] \<rparr> = Some [fullMissing, fullMissing] \<and>
   createProjectPages sampleEnv sampleConfig samplePage sampleLayoutProject = [AddPage, AddPage] \<and>
   p_layout sampleLoaded = None \<and>
   createProjectPages sampleEnv sampleConfig samplePage sampleLoaded =
     createInfoPage sampleEnv sampleConfig samplePage sampleLoaded @ [AddPage] @
     createGalleryPage sampleEnv sampleConfig samplePage [sampleImages ! 0, sampleImages ! 1] @
     [AddPage] @
     createGalleryPage sampleEnv sampleConfig samplePage [sampleImages ! 2]"
proof -
  have h1: "p_layout sampleLayoutProject = Some \<lparr> lo_pages = Some [fullMissing, fullMissing] \<rparr> \<and>
      lo_pages \<lparr> lo_pages = Some [fullMissing, fullMissing] \<rparr> = Some [fullMissing, fullMissing]"
    by (simp add: sampleLayoutProject_def)
  have h2: "p_layout sampleLoaded = None" by (simp add: sampleLoaded_def sampleProject_def)
  then have h2': "p_layout sampleLoaded = None \<or>
      (\<exists>lo. p_layout sampleLoaded = Some lo \<and> lo_pages lo = None)" ..
  have imgs: "pairs (p_processedImages sampleLoaded) =
      [[sampleImages ! 0, sampleImages ! 1], [sampleImages ! 2]]"
    by (simp add: sampleLoaded_def sampleImages_def)
  note a = project_page_breaks[where proj = sampleLayoutProject and e = sampleEnv
      and cfg = sampleConfig and pg = samplePage, THEN conjunct1, THEN mp, OF h1]
  note b = project_page_breaks[where proj = sampleLoaded and e = sampleEnv
      and cfg = sampleConfig and pg = samplePage, THEN conjunct2, THEN conjunct1, THEN mp, OF h2']
  have a': "createProjectPages sampleEnv sampleConfig samplePage sampleLayoutProject
      = [AddPage, AddPage]"
    unfolding a by (simp add: full_missing_layout)
  have b': "createProjectPages sampleEnv sampleConfig samplePage sampleLoaded =
     createInfoPage sampleEnv sampleConfig samplePage sampleLoaded @ [AddPage] @
     createGalleryPage sampleEnv sampleConfig samplePage [sampleImages ! 0, sampleImages ! 1] @
     [AddPage] @
     createGalleryPage sampleEnv sampleConfig samplePage [sampleImages ! 2]"
    unfolding b imgs by simp
  from h1 a' h2 b' show ?thesis by (simp only: simp_thms)
qed

subsection \<open>The two-column info page\<close>

lemma keywords_not_images:
  "\<not> matchesImage ''title''" "\<not> matchesImage ''description''"
  by (simp_all add: matchesImage_def endsWith_ci_def canonicalize_def)

text \<open>
  C4, as the code has it. On a two-column info page whose content is the title, the
  description and one image token, in any order, the height computed before rendering is
  the fixed allowance of the table for the title plus the measured height of the
  description at the width of the text column plus 20. What the rendering adds to the
  cursor is the rendered height of the title plus 20 plus the rendered height of the
  description plus 20. The description is measured, the title is not: the two heights
  agree exactly when the title, as rendered, plus 20 equals the allowance.
\<close>

theorem two_column_text_height:
  assumes "pg_content lp \<in>
      {[''title'', ''description'', tok], [''title'', tok, ''description''],
       [''description'', ''title'', tok], [''description'', tok, ''title''],
       [tok, ''title'', ''description''], [tok, ''description'', ''title'']}"
    and "matchesImage tok"
  shows "twoColumnTextHeight e cfg pg proj lp =
           lineSpacing_title +
           (text_height e (f_body (fonts_of cfg)) 12 (p_description proj)
              (Some (textColumnWidth cfg pg)) + 20) \<and>
         twoColumnRendered e cfg pg proj lp =
           (text_height e (f_title (fonts_of cfg)) 24 (p_title proj)
              (Some (textColumnWidth cfg pg)) + 20) +
           (text_height e (f_body (fonts_of cfg)) 12 (p_description proj)
              (Some (textColumnWidth cfg pg)) + 20) \<and>
         (twoColumnTextHeight e cfg pg proj lp = twoColumnRendered e cfg pg proj lp) =
           (text_height e (f_title (fonts_of cfg)) 24 (p_title proj)
              (Some (textColumnWidth cfg pg)) + 20 = lineSpacing_title)"
proof -
  have pre: "twoColumnTextHeight e cfg pg proj lp =
           lineSpacing_title +
           (text_height e (f_body (fonts_of cfg)) 12 (p_description proj)
              (Some (textColumnWidth cfg pg)) + 20)"
    using assms
    by (auto simp: twoColumnTextHeight_def descriptionHeight_def keywords_not_images)
  have ren: "twoColumnRendered e cfg pg proj lp =
           (text_height e (f_title (fonts_of cfg)) 24 (p_title proj)
              (Some (textColumnWidth cfg pg)) + 20) +
           (text_height e (f_body (fonts_of cfg)) 12 (p_description proj)
              (Some (textColumnWidth cfg pg)) + 20)"
    using assms
    by (auto simp: twoColumnRendered_def twoColumnItem_def textAt_def Let_def
        keywords_not_images)
  show ?thesis unfolding pre ren by (simp add: algebra_simps) argo
qed


lemma sample_heights:
  "twoColumnTextHeight sampleEnv sampleConfig samplePage sampleLoaded upperInfo = 492 / 5"
  "twoColumnRendered sampleEnv sampleConfig samplePage sampleLoaded upperInfo = 416 / 5"
  by code_simp+

theorem two_column_text_height_witness:
  "pg_content upperInfo = [''title'', ''description'', ''PHOTO.JPG''] \<and>
   matchesImage ''PHOTO.JPG'' \<and>
   twoColumnTextHeight sampleEnv sampleConfig samplePage sampleLoaded upperInfo =
     lineSpacing_title +
     (text_height sampleEnv (f_body (fonts_of sampleConfig)) 12 (p_description sampleLoaded)
        (Some (textColumnWidth sampleConfig samplePage)) + 20) \<and>
   twoColumnRendered sampleEnv sampleConfig samplePage sampleLoaded upperInfo =
     (text_height sampleEnv (f_title (fonts_of sampleConfig)) 24 (p_title sampleLoaded)
        (Some (textColumnWidth sampleConfig samplePage)) + 20) +
     (text_height sampleEnv (f_body (fonts_of sampleConfig)) 12 (p_description sampleLoaded)
        (Some (textColumnWidth sampleConfig samplePage)) + 20)"
proof -
  have c: "pg_content upperInfo = [''title'', ''description'', ''PHOTO.JPG'']"
    by (simp add: upperInfo_def)
  then have h1: "pg_content upperInfo \<in>
      {[''title'', ''description'', ''PHOTO.JPG''], [''title'', ''PHOTO.JPG'', ''description''],
       [''description'', ''title'', ''PHOTO.JPG''], [''description'', ''PHOTO.JPG'', ''title''],
       [''PHOTO.JPG'', ''title'', ''description''], [''PHOTO.JPG'', ''description'', ''title'']}"
    by (simp only: insertI1)
  have h2: "matchesImage ''PHOTO.JPG''"
    by (simp add: matchesImage_def endsWith_ci_def canonicalize_def)
  note r = two_column_text_height[OF h1 h2, of sampleEnv sampleConfig samplePage sampleLoaded]
  from c h2 r[THEN conjunct1] r[THEN conjunct2, THEN conjunct1]
  show ?thesis by (intro conjI)
qed

text \<open>
  The claim C4 as stated fails: where a line of text is 1.2 times its font size high, a
  title of one line is rendered 28.8 points high, the height computed before rendering is
  98.4 and the rendering adds 83.2.
\<close>

theorem text_height_mismatch:
  "pg_content upperInfo = [''title'', ''description'', ''PHOTO.JPG''] \<and>
   twoColumnTextHeight sampleEnv sampleConfig samplePage sampleLoaded upperInfo = 492 / 5 \<and>
   twoColumnRendered sampleEnv sampleConfig samplePage sampleLoaded upperInfo = 416 / 5 \<and>
   twoColumnTextHeight sampleEnv sampleConfig samplePage sampleLoaded upperInfo
     \<noteq> twoColumnRendered sampleEnv sampleConfig samplePage sampleLoaded upperInfo"
  unfolding sample_heights by (simp add: upperInfo_def)

end
